theory Spec2Isabelle
  imports Main "HOL-Library.Word"
begin

section \<open>MemDiff: page integrity monitoring and patch macro synthesis\<close>

text \<open>
  A shallow embedding of \<^verbatim>\<open>dllmain.cpp\<close> and \<^verbatim>\<open>macrowriter.cpp\<close>.

  \<^item> A \<^verbatim>\<open>BYTE\<close> is an \<open>8 word\<close>. \<^verbatim>\<open>size_t\<close>, \<^verbatim>\<open>DWORD_PTR\<close> and \<^verbatim>\<open>PVOID\<close> are
    \<open>'a word\<close>, where \<open>'a\<close> is the pointer width of the build (the source is written for
    32 and for 64 bits); \<^verbatim>\<open>DWORD\<close> is \<open>32 word\<close>. Address arithmetic wraps around as
    \<^verbatim>\<open>size_t\<close> arithmetic does.
  \<^item> The address space the monitor reads is a function from addresses to bytes. Every
    address can be read: access violations are outside the model.
  \<^item> A \<^verbatim>\<open>std::vector\<close> is a list. Where the source passes \<^verbatim>\<open>v.data()\<close> as a
    \<^verbatim>\<open>void*\<close>, the model passes the list, and the address stepping over the vector's
    storage becomes the offset from \<^verbatim>\<open>v.data()\<close>. A read at an offset beyond the
    vector has no defined behaviour in the source; the model returns \<open>None\<close> there.
  \<^item> \<^verbatim>\<open>crc_crypt\<close> is declared in \<^verbatim>\<open>error-checking.h\<close> and defined outside the
    repository's sources: it is a parameter, a function of the bytes of the range it is
    given. The Windows calls \<^verbatim>\<open>GetModuleHandle\<close>, \<^verbatim>\<open>K32GetModuleInformation\<close> and
    \<^verbatim>\<open>VirtualQuery\<close> are fields of a record that describes the host.
  \<^item> Console output is a list of events; the text of a generated macro is kept as the
    string the source builds.
\<close>

type_synonym byte = "8 word"

type_synonym 'a memory = "'a word \<Rightarrow> byte"

text \<open>A \<^verbatim>\<open>std::pair<BYTE, PVOID>\<close>: a byte value and the virtual address it belongs to.\<close>

type_synonym 'a change = "byte \<times> 'a word"

subsection \<open>macrowriter.cpp\<close>

text \<open>\<^verbatim>\<open>std::to_string\<close> of an unsigned value: its decimal digits, most significant first.\<close>

definition digit :: "nat \<Rightarrow> char" where
  "digit d = ''0123456789'' ! d"

function to_string :: "nat \<Rightarrow> string" where
  "to_string n = (if n < 10 then [digit n] else to_string (n div 10) @ [digit (n mod 10)])"
  by pat_completeness auto
termination
  by (relation "measure id") auto

declare to_string.simps [simp del]

text \<open>
  The two statements generated for item \<open>Item\<close> of the list (lines 78--86): the
  declaration of \<^verbatim>\<open>BufferN\<close> initialised with the byte value, and the call that writes
  that one byte to the address.
\<close>

definition VarInit :: "nat \<Rightarrow> byte \<Rightarrow> string" where
  "VarInit Item b =
     [CHR 0x09] @ ''BYTE Buffer'' @ to_string Item @ '' = '' @ to_string (unat b) @ ''L;\<newline>''"

definition WriteInit :: "nat \<Rightarrow> 'a::len word \<Rightarrow> string" where
  "WriteInit Item a =
     [CHR 0x09] @ ''WriteProcessMemory(ProcessHandle, (PVOID)'' @ to_string (unat a)
       @ ''L, &Buffer'' @ to_string Item @ '', 1, NULL);\<newline>\<newline>''"

function GeneratePairMacro_loop ::
  "'a::len change list \<Rightarrow> nat \<Rightarrow> (string \<times> string) list \<Rightarrow> (string \<times> string) list" where
  "GeneratePairMacro_loop List Item Macros =
     (if Item < length List
      then GeneratePairMacro_loop List (Suc Item)
             (Macros @ [(VarInit Item (fst (List ! Item)), WriteInit Item (snd (List ! Item)))])
      else Macros)"
  by pat_completeness auto
termination
  by (relation "measure (\<lambda>(List, Item, Macros). length List - Item)") auto

declare GeneratePairMacro_loop.simps [simp del]

definition FunctionInit :: "string \<Rightarrow> string" where
  "FunctionInit MacroName = ''void '' @ MacroName @ ''(HANDLE ProcessHandle)\<newline>{\<newline>''"

definition GeneratePairMacro :: "string \<Rightarrow> 'a::len change list \<Rightarrow> (string \<times> string) list" where
  "GeneratePairMacro MacroName List =
     (let MacroName = (if MacroName = '''' then ''DefaultMacroName'' else MacroName);
          FunctionEnd = ''}''
      in GeneratePairMacro_loop List 0 [(FunctionInit MacroName, FunctionEnd)])"

text \<open>
  \<^verbatim>\<open>OutputMacro\<close> returns the text it writes to the console. It reads \<^verbatim>\<open>Macros[0]\<close>
  without a check: on an empty vector that read is out of range, and the model returns
  \<open>None\<close>.
\<close>

function OutputMacro_loop :: "(string \<times> string) list \<Rightarrow> nat \<Rightarrow> string \<Rightarrow> string" where
  "OutputMacro_loop Macros MacIndex out =
     (if MacIndex < length Macros
      then OutputMacro_loop Macros (Suc MacIndex)
             (out @ fst (Macros ! MacIndex) @ snd (Macros ! MacIndex))
      else out)"
  by pat_completeness auto
termination
  by (relation "measure (\<lambda>(Macros, MacIndex, out). length Macros - MacIndex)") auto

declare OutputMacro_loop.simps [simp del]

definition OutputMacro :: "(string \<times> string) list \<Rightarrow> string option" where
  "OutputMacro Macros =
     (case Macros of
        [] \<Rightarrow> None
      | M0 # _ \<Rightarrow> Some (OutputMacro_loop Macros 1 (fst M0) @ snd M0 @ ''\<newline>'' @ ''\<newline>''))"

subsection \<open>dllmain.cpp: data\<close>

text \<open>
  The fields of \<^verbatim>\<open>MEMORY_BASIC_INFORMATION\<close> the source reads. The type parameter is
  the type of an address, \<open>'a word\<close> throughout.
\<close>

record 'p MEMORY_BASIC_INFORMATION =
  BaseAddress :: "'p"
  RegionSize :: "'p"
  Protect :: "32 word"

record 'p MEM_DIFF =
  Checksum :: "'p"
  BasicInformation :: "'p MEMORY_BASIC_INFORMATION"
  PageData :: "byte list"

record MODULEINFO =
  SizeOfImage :: "32 word"

text \<open>The memory protection constants of \<^verbatim>\<open>winnt.h\<close>.\<close>

definition PAGE_NOACCESS :: "32 word" where
  "PAGE_NOACCESS = 0x01"

definition PAGE_READONLY :: "32 word" where
  "PAGE_READONLY = 0x02"

definition PAGE_READWRITE :: "32 word" where
  "PAGE_READWRITE = 0x04"

definition PAGE_EXECUTE_READ :: "32 word" where
  "PAGE_EXECUTE_READ = 0x20"

text \<open>
  The host process as the source sees it. \<open>K32GetModuleInformation\<close> is \<open>Inl e\<close> when
  the call returns \<^verbatim>\<open>FALSE\<close> and \<^verbatim>\<open>GetLastError()\<close> is \<open>e\<close>. \<open>VirtualQuery\<close> is
  \<open>None\<close> when the call fails: it returns 0 and leaves the caller's buffer as it was.
\<close>

record 'p host =
  GetModuleHandle :: "string \<Rightarrow> 'p"
  K32GetModuleInformation :: "'p \<Rightarrow> 32 word + MODULEINFO"
  VirtualQuery :: "'p \<Rightarrow> 'p MEMORY_BASIC_INFORMATION option"
  contents :: "'p \<Rightarrow> byte"

text \<open>What the source writes to \<^verbatim>\<open>std::cout\<close> and \<^verbatim>\<open>std::cerr\<close>, one event per statement.\<close>

datatype 'p console =
    Module_name_prompt
  | K32GetModuleInformation_error "32 word"
  | Module_EP 'p
  | Added_Page_Base 'p
  | Page_Checksum 'p
  | Page_list_initialized
  | Page_change 'p 'p 'p
  | Change_Address 'p byte
  | Macro_name_prompt
  | Macro_text string

subsection \<open>dllmain.cpp: capture\<close>

text \<open>
  \<^verbatim>\<open>GetChecksum(Start, End)\<close>: \<open>bytes\<close> are the \<open>End\<close> bytes at \<open>Start\<close>. The result of
  \<^verbatim>\<open>crc_crypt\<close>, an \<^verbatim>\<open>unsigned int\<close>, is widened to a \<^verbatim>\<open>DWORD_PTR\<close>. The conversion of
  \<open>End\<close> to \<^verbatim>\<open>crc_size\<close> happens at the call of \<^verbatim>\<open>crc_crypt\<close> and is part of the
  parameter.
\<close>

definition GetChecksum :: "(byte list \<Rightarrow> 32 word) \<Rightarrow> byte list \<Rightarrow> 'a::len word" where
  "GetChecksum crc_crypt bytes = ucast (crc_crypt bytes)"

text \<open>The \<open>End\<close> bytes of the address space that start at the address \<open>Start\<close>.\<close>

definition bytes_at :: "'a::len memory \<Rightarrow> 'a word \<Rightarrow> 'a word \<Rightarrow> byte list" where
  "bytes_at mem Start End = map (\<lambda>i. mem (Start + of_nat i)) [0..<unat End]"

text \<open>
  The copy loop of \<^verbatim>\<open>EstablishPage\<close> (lines 95--99). \<open>bound\<close> is
  \<^verbatim>\<open>BaseAddress + RegionSize\<close>, computed in \<^verbatim>\<open>size_t\<close>.
\<close>

function EstablishPage_loop ::
  "'a::len memory \<Rightarrow> 'a word \<Rightarrow> 'a word \<Rightarrow> byte list \<Rightarrow> byte list" where
  "EstablishPage_loop mem bound ByteIter Data =
     (if ByteIter < bound
      then EstablishPage_loop mem bound (ByteIter + 1) (Data @ [mem ByteIter])
      else Data)"
  by pat_completeness auto
termination
proof (relation "measure (\<lambda>(mem, bound, ByteIter, Data). unat bound - unat ByteIter)")
  show "wf (measure (\<lambda>(mem :: 'a memory, bound, ByteIter, Data :: byte list).
              unat bound - unat ByteIter))"
    by simp
next
  fix mem :: "'a memory" and bound ByteIter :: "'a word" and Data :: "byte list"
  assume less: "ByteIter < bound"
  then have "ByteIter \<noteq> - 1"
    by (metis word_order.extremum leD)
  then have "1 + ByteIter \<noteq> 0"
    by (simp add: add_eq_0_iff)
  then have "unat (1 + ByteIter) = Suc (unat ByteIter)"
    by (rule unatSuc)
  then have "unat (ByteIter + 1) = Suc (unat ByteIter)"
    by (simp only: add.commute [of ByteIter 1])
  with less show "((mem, bound, ByteIter + 1, Data @ [mem ByteIter]), (mem, bound, ByteIter, Data))
        \<in> measure (\<lambda>(mem, bound, ByteIter, Data). unat bound - unat ByteIter)"
    by (simp add: word_less_nat_alt)
qed

declare EstablishPage_loop.simps [simp del]

definition EstablishPage ::
  "(byte list \<Rightarrow> 32 word) \<Rightarrow> 'a::len memory \<Rightarrow> 'a word MEM_DIFF list
     \<Rightarrow> 'a word MEMORY_BASIC_INFORMATION
     \<Rightarrow> 'a word MEM_DIFF list \<times> 'a word console list" where
  "EstablishPage crc_crypt mem DiffList Info =
     (let Data = EstablishPage_loop mem (BaseAddress Info + RegionSize Info) (BaseAddress Info) [];
          DiffBlock = \<lparr>Checksum = GetChecksum crc_crypt Data, BasicInformation = Info,
                       PageData = Data\<rparr>
      in (DiffList @ [DiffBlock],
          [Added_Page_Base (BaseAddress Info), Page_Checksum (Checksum DiffBlock)]))"

subsection \<open>dllmain.cpp: enumeration\<close>

text \<open>
  The page walk of \<^verbatim>\<open>GetModulePages\<close> (lines 165--184). \<open>Info\<close> is the local
  \<^verbatim>\<open>BasicInformation\<close>: the loop condition reads it again at every iteration, after
  \<^verbatim>\<open>VirtualQuery\<close> has overwritten it. The source puts no bound on the number of
  iterations; \<open>fuel\<close> does, and the result is \<open>None\<close> when it runs out.
\<close>

fun GetModulePages_loop ::
  "nat \<Rightarrow> (byte list \<Rightarrow> 32 word) \<Rightarrow> 'a::len word host \<Rightarrow> 'a word \<Rightarrow> 32 word \<Rightarrow> 'a word
     \<Rightarrow> 'a word MEMORY_BASIC_INFORMATION \<Rightarrow> 'a word MEM_DIFF list \<Rightarrow> 'a word console list
     \<Rightarrow> ('a word MEM_DIFF list \<times> 'a word console list) option" where
  "GetModulePages_loop 0 crc_crypt h Module Size PageIter Info DiffList out = None"
| "GetModulePages_loop (Suc fuel) crc_crypt h Module Size PageIter Info DiffList out =
     (if PageIter < BaseAddress Info + ucast Size
      then
        (let Info' = (case VirtualQuery h PageIter of None \<Rightarrow> Info | Some r \<Rightarrow> r);
             (DiffList', out') =
               (if BaseAddress Info' < Module + ucast Size
                then
                  (if Protect Info' = PAGE_EXECUTE_READ \<or> Protect Info' = PAGE_READONLY
                   then
                     (let (L, lines) = EstablishPage crc_crypt (contents h) DiffList Info'
                      in (L, out @ lines))
                   else (DiffList, out))
                else (DiffList, out))
         in GetModulePages_loop fuel crc_crypt h Module Size (PageIter + RegionSize Info') Info'
              DiffList' out')
      else Some (DiffList, out))"

text \<open>
  \<^verbatim>\<open>GetModulePages\<close> returns its status code, the list it was given with the captured
  pages appended, and its console output.
\<close>

definition GetModulePages ::
  "nat \<Rightarrow> (byte list \<Rightarrow> 32 word) \<Rightarrow> 'a::len word host \<Rightarrow> string \<Rightarrow> 'a word MEM_DIFF list
     \<Rightarrow> (32 word \<times> 'a word MEM_DIFF list \<times> 'a word console list) option" where
  "GetModulePages fuel crc_crypt h ModuleName DiffList =
     (let Module = GetModuleHandle h ModuleName
      in case K32GetModuleInformation h Module of
           Inl StatusCode \<Rightarrow>
             Some (StatusCode, DiffList, [K32GetModuleInformation_error StatusCode])
         | Inr ModuleInformation \<Rightarrow>
             (let Info0 = \<lparr>BaseAddress = 0, RegionSize = 0, Protect = 0\<rparr>;
                  Info = (case VirtualQuery h Module of None \<Rightarrow> Info0 | Some r \<Rightarrow> r)
              in case GetModulePages_loop fuel crc_crypt h Module (SizeOfImage ModuleInformation)
                        (BaseAddress Info) Info DiffList [Module_EP (BaseAddress Info)] of
                   None \<Rightarrow> None
                 | Some (DiffList', out) \<Rightarrow> Some (0, DiffList', out)))"

subsection \<open>dllmain.cpp: verification\<close>

definition EvaluatePage ::
  "(byte list \<Rightarrow> 32 word) \<Rightarrow> 'a::len memory \<Rightarrow> 'a word MEM_DIFF \<Rightarrow> 'a word" where
  "EvaluatePage crc_crypt mem Comparator =
     (let TargetChecksum =
            GetChecksum crc_crypt
              (bytes_at mem (BaseAddress (BasicInformation Comparator))
                 (RegionSize (BasicInformation Comparator)))
      in if TargetChecksum \<noteq> Checksum Comparator then TargetChecksum else 0)"

text \<open>
  The comparison loop of \<^verbatim>\<open>ComparePages\<close> (lines 252--268). \<open>Page\<close> is the vector whose
  \<^verbatim>\<open>data()\<close> the caller passes, \<open>PageIter\<close> the offset of the source's \<^verbatim>\<open>PageIter\<close>
  from it; \<open>AltPageIter\<close> is an address and wraps around as the source's does.
\<close>

function ComparePages_loop ::
  "byte list \<Rightarrow> 'a::len memory \<Rightarrow> nat \<Rightarrow> nat \<Rightarrow> 'a word \<Rightarrow> 'a change list \<Rightarrow> 'a change list
     \<Rightarrow> ('a change list \<times> 'a change list) option" where
  "ComparePages_loop Page mem PageSize PageIter AltPageIter ChangedBytes OriginBytes =
     (if PageIter < PageSize
      then
        (if PageIter < length Page
         then
           (if Page ! PageIter \<noteq> mem AltPageIter
            then ComparePages_loop Page mem PageSize (Suc PageIter) (AltPageIter + 1)
                   (ChangedBytes @ [(mem AltPageIter, AltPageIter)])
                   (OriginBytes @ [(Page ! PageIter, AltPageIter)])
            else ComparePages_loop Page mem PageSize (Suc PageIter) (AltPageIter + 1)
                   ChangedBytes OriginBytes)
         else None)
      else Some (ChangedBytes, OriginBytes))"
  by pat_completeness auto
termination
  by (relation "measure (\<lambda>(Page, mem, PageSize, PageIter, rest). PageSize - PageIter)") auto

declare ComparePages_loop.simps [simp del]

definition ComparePages ::
  "byte list \<Rightarrow> 'a::len memory \<Rightarrow> 'a word \<Rightarrow> 'a word
     \<Rightarrow> ('a change list \<times> 'a change list) option" where
  "ComparePages Page mem AltPage PageSize =
     ComparePages_loop Page mem (unat PageSize) 0 AltPage [] []"

text \<open>The lines \<^verbatim>\<open>ComparePages\<close> prints before it returns (lines 270--273).\<close>

definition ComparePages_cout :: "'a::len change list \<Rightarrow> 'a word console list" where
  "ComparePages_cout ChangedBytes =
     map (\<lambda>ChangePair. Change_Address (snd ChangePair) (fst ChangePair)) ChangedBytes"

subsection \<open>dllmain.cpp: the monitoring loop\<close>

text \<open>
  The state of \<^verbatim>\<open>EvaluatePageList\<close>: the page set, the lines the operator has yet to
  enter, and the console output so far.
\<close>

record 'p monitor =
  PageSet :: "'p MEM_DIFF list"
  cin :: "string list"
  cout :: "'p console list"

text \<open>\<^verbatim>\<open>std::getline\<close>: the next line, or the empty string at the end of the input.\<close>

fun getline :: "string list \<Rightarrow> string \<times> string list" where
  "getline [] = ('''', [])"
| "getline (l # ls) = (l, ls)"

text \<open>
  The body of the \<^verbatim>\<open>for\<close> loop (lines 319--346) for one element of the page set,
  against the address space \<open>mem\<close> as it stands when the page is evaluated.
\<close>

definition EvaluatePageList_body ::
  "(byte list \<Rightarrow> 32 word) \<Rightarrow> 'a::len memory \<Rightarrow> 'a word monitor \<Rightarrow> 'a word MEM_DIFF
     \<Rightarrow> 'a word monitor option" where
  "EvaluatePageList_body crc_crypt mem s Page =
     (let Sum = EvaluatePage crc_crypt mem Page
      in if Sum \<noteq> 0
         then
           (case ComparePages (PageData Page) mem (BaseAddress (BasicInformation Page))
                   (RegionSize (BasicInformation Page)) of
              None \<Rightarrow> None
            | Some ChangedData \<Rightarrow>
                (let (MacroName, rest) = getline (cin s)
                 in case OutputMacro (GeneratePairMacro MacroName (fst ChangedData)) of
                      None \<Rightarrow> None
                    | Some apply_text \<Rightarrow>
                        (case OutputMacro
                                (GeneratePairMacro (''Undo'' @ MacroName) (snd ChangedData)) of
                           None \<Rightarrow> None
                         | Some undo_text \<Rightarrow>
                             Some (s\<lparr>cin := rest,
                                     cout := cout s
                                       @ [Page_change (BaseAddress (BasicInformation Page)) Sum
                                            (Checksum Page)]
                                       @ ComparePages_cout (fst ChangedData)
                                       @ [Macro_name_prompt, Macro_text apply_text,
                                          Macro_text undo_text]\<rparr>))))
         else Some s)"

text \<open>The \<^verbatim>\<open>for\<close> loop over the page set: one sweep.\<close>

fun EvaluatePageList_for ::
  "(byte list \<Rightarrow> 32 word) \<Rightarrow> 'a::len memory \<Rightarrow> 'a word monitor \<Rightarrow> 'a word MEM_DIFF list
     \<Rightarrow> 'a word monitor option" where
  "EvaluatePageList_for crc_crypt mem s [] = Some s"
| "EvaluatePageList_for crc_crypt mem s (Page # Pages) =
     (case EvaluatePageList_body crc_crypt mem s Page of
        None \<Rightarrow> None
      | Some s' \<Rightarrow> EvaluatePageList_for crc_crypt mem s' Pages)"

text \<open>
  The \<^verbatim>\<open>while (PageEval)\<close> loop never ends. The model runs one sweep for each element of
  \<open>mems\<close>, the address space as it stands at each successive sweep, and returns the state
  after the last of them.
\<close>

fun EvaluatePageList_while ::
  "(byte list \<Rightarrow> 32 word) \<Rightarrow> 'a::len memory list \<Rightarrow> 'a word monitor
     \<Rightarrow> 'a word monitor option" where
  "EvaluatePageList_while crc_crypt [] s = Some s"
| "EvaluatePageList_while crc_crypt (mem # mems) s =
     (case EvaluatePageList_for crc_crypt mem s (PageSet s) of
        None \<Rightarrow> None
      | Some s' \<Rightarrow> EvaluatePageList_while crc_crypt mems s')"

text \<open>
  \<^verbatim>\<open>EvaluatePageList\<close> up to the loop (lines 301--309): the module name is read, the
  page set is built, and the status code of \<^verbatim>\<open>GetModulePages\<close> is dropped.
\<close>

definition EvaluatePageList_init ::
  "nat \<Rightarrow> (byte list \<Rightarrow> 32 word) \<Rightarrow> 'a::len word host \<Rightarrow> string list \<Rightarrow> 'a word monitor option" where
  "EvaluatePageList_init fuel crc_crypt h input =
     (let (ModuleName, rest) = getline input
      in case GetModulePages fuel crc_crypt h ModuleName [] of
           None \<Rightarrow> None
         | Some (StatusCode, Pages, out) \<Rightarrow>
             Some \<lparr>PageSet = Pages, cin = rest,
                   cout = [Module_name_prompt] @ out @ [Page_list_initialized]\<rparr>)"

subsection \<open>Running a generated macro\<close>

text \<open>
  The statements of a generated macro are calls of the Windows primitive
  \<^verbatim>\<open>WriteProcessMemory\<close> with a length of 1: each stores one byte at one address of the
  target. \<open>run_macro\<close> is the effect of the statements generated from a list, in order.
\<close>

definition WriteProcessMemory :: "'a::len memory \<Rightarrow> 'a word \<Rightarrow> byte \<Rightarrow> 'a memory" where
  "WriteProcessMemory mem a b = mem(a := b)"

fun run_macro :: "'a::len change list \<Rightarrow> 'a memory \<Rightarrow> 'a memory" where
  "run_macro [] mem = mem"
| "run_macro (c # List) mem = run_macro List (WriteProcessMemory mem (snd c) (fst c))"

text \<open>
  The value of a decimal literal, as a C compiler reads the digits that
  \<^verbatim>\<open>std::to_string\<close> has written into a statement.
\<close>

definition digit_value :: "char \<Rightarrow> nat" where
  "digit_value c = of_char c - 48"

definition decimal :: "string \<Rightarrow> nat" where
  "decimal s = foldl (\<lambda>v c. 10 * v + digit_value c) 0 s"

text \<open>
  The statements of a generated macro, as a C compiler reads them. A declaration
  \<^verbatim>\<open>BYTE name = valueL;\<close> gives the name of the variable and the value of the literal; a
  call \<^verbatim>\<open>WriteProcessMemory(ProcessHandle, (PVOID)addressL, &name, 1, NULL);\<close> gives the
  value of the address literal and the name of the variable whose byte is written. A
  pair of statements stores the byte at the address when the call names the variable
  that was declared. Any other text is not read. \<open>run_text\<close> runs the statement pairs
  that follow the header of a macro, in order, on the address space of the process whose
  handle the macro is given.
\<close>

definition is_digit :: "char \<Rightarrow> bool" where
  "is_digit c \<longleftrightarrow> c \<in> set ''0123456789''"

definition is_name_char :: "char \<Rightarrow> bool" where
  "is_name_char c \<longleftrightarrow>
     c \<in> set ''ABCDEFGHIJKLMNOPQRSTUVWXYZabcdefghijklmnopqrstuvwxyz_0123456789''"

definition expect :: "string \<Rightarrow> string \<Rightarrow> string option" where
  "expect token s = (if take (length token) s = token then Some (drop (length token) s) else None)"

definition read_declaration :: "string \<Rightarrow> (string \<times> nat) option" where
  "read_declaration s =
     (case expect (CHR 0x09 # ''BYTE '') s of
        None \<Rightarrow> None
      | Some s1 \<Rightarrow>
          (case expect '' = '' (dropWhile is_name_char s1) of
             None \<Rightarrow> None
           | Some s2 \<Rightarrow>
               (if takeWhile is_name_char s1 \<noteq> [] \<and> takeWhile is_digit s2 \<noteq> []
                   \<and> dropWhile is_digit s2 = ''L;\<newline>''
                then Some (takeWhile is_name_char s1, decimal (takeWhile is_digit s2))
                else None)))"

definition read_write :: "string \<Rightarrow> (nat \<times> string) option" where
  "read_write s =
     (case expect (CHR 0x09 # ''WriteProcessMemory(ProcessHandle, (PVOID)'') s of
        None \<Rightarrow> None
      | Some s1 \<Rightarrow>
          (case expect ''L, &'' (dropWhile is_digit s1) of
             None \<Rightarrow> None
           | Some s2 \<Rightarrow>
               (if takeWhile is_digit s1 \<noteq> [] \<and> takeWhile is_name_char s2 \<noteq> []
                   \<and> dropWhile is_name_char s2 = '', 1, NULL);\<newline>\<newline>''
                then Some (decimal (takeWhile is_digit s1), takeWhile is_name_char s2)
                else None)))"

text \<open>The address and the value that a pair of statements writes.\<close>

definition read_statement :: "string \<times> string \<Rightarrow> (nat \<times> nat) option" where
  "read_statement st =
     (case read_declaration (fst st) of
        None \<Rightarrow> None
      | Some (name, v) \<Rightarrow>
          (case read_write (snd st) of
             None \<Rightarrow> None
           | Some (a, name') \<Rightarrow> if name' = name then Some (a, v) else None))"

fun run_statements :: "(string \<times> string) list \<Rightarrow> 'a::len memory \<Rightarrow> 'a memory option" where
  "run_statements [] mem = Some mem"
| "run_statements (st # sts) mem =
     (case read_statement st of
        None \<Rightarrow> None
      | Some (a, v) \<Rightarrow> run_statements sts (WriteProcessMemory mem (of_nat a) (of_nat v)))"

definition run_text :: "(string \<times> string) list \<Rightarrow> 'a::len memory \<Rightarrow> 'a memory option" where
  "run_text Macros mem = (case Macros of [] \<Rightarrow> None | header # sts \<Rightarrow> run_statements sts mem)"

subsection \<open>A concrete session\<close>

text \<open>
  A 64-bit process. Its module lies at \<open>0x400000\<close> and has four regions of four bytes
  each, read-only, execute-read, read-write and no-access in this order, followed by a
  free region. Every byte is \<open>0x90\<close> when the pages are captured. \<open>example_crc\<close> stands
  for \<^verbatim>\<open>crc_crypt\<close>: the sum of the bytes.
\<close>

definition example_regions :: "64 word \<Rightarrow> 64 word MEMORY_BASIC_INFORMATION option" where
  "example_regions a =
     (if a < 0x400000 then None
      else if a < 0x400004 then
        Some \<lparr>BaseAddress = 0x400000, RegionSize = 4, Protect = PAGE_READONLY\<rparr>
      else if a < 0x400008 then
        Some \<lparr>BaseAddress = 0x400004, RegionSize = 4, Protect = PAGE_EXECUTE_READ\<rparr>
      else if a < 0x40000C then
        Some \<lparr>BaseAddress = 0x400008, RegionSize = 4, Protect = PAGE_READWRITE\<rparr>
      else if a < 0x400010 then
        Some \<lparr>BaseAddress = 0x40000C, RegionSize = 4, Protect = PAGE_NOACCESS\<rparr>
      else if a < 0x410000 then
        Some \<lparr>BaseAddress = 0x400010, RegionSize = 0xFFF0, Protect = PAGE_NOACCESS\<rparr>
      else None)"

definition example_original :: "64 memory" where
  "example_original = (\<lambda>a. 0x90)"

definition example_host :: "64 word host" where
  "example_host =
     \<lparr>GetModuleHandle = (\<lambda>ModuleName. 0x400000),
      K32GetModuleInformation = (\<lambda>Module. Inr \<lparr>SizeOfImage = 16\<rparr>),
      VirtualQuery = example_regions,
      contents = example_original\<rparr>"

definition example_crc :: "byte list \<Rightarrow> 32 word" where
  "example_crc bytes = sum_list (map ucast bytes)"

text \<open>The execute-read region and its snapshot.\<close>

definition example_base :: "64 word" where
  "example_base = 0x400004"

definition example_Info :: "64 word MEMORY_BASIC_INFORMATION" where
  "example_Info = \<lparr>BaseAddress = 0x400004, RegionSize = 4, Protect = PAGE_EXECUTE_READ\<rparr>"

definition example_Page :: "64 word MEM_DIFF" where
  "example_Page = \<lparr>Checksum = 0x240, BasicInformation = example_Info,
                    PageData = [0x90, 0x90, 0x90, 0x90]\<rparr>"

text \<open>After the capture, the byte at offset 2 of the execute-read region is overwritten.\<close>

definition example_live :: "64 memory" where
  "example_live = example_original(0x400006 := 0xCC)"

text \<open>Or the whole region is overwritten with zeros: the sum of its bytes is then 0.\<close>

definition example_zeroed :: "64 memory" where
  "example_zeroed = (\<lambda>a. if 0x400004 \<le> a \<and> a < 0x400008 then 0 else example_original a)"

text \<open>
  Or the execute-read region shrinks to two bytes, the rest of it becoming a region
  of its own.
\<close>

definition example_shrunk :: "64 word host" where
  "example_shrunk =
     example_host
       \<lparr>VirtualQuery := (\<lambda>a.
           if 0x400004 \<le> a \<and> a < 0x400006 then
             Some \<lparr>BaseAddress = 0x400004, RegionSize = 2, Protect = PAGE_EXECUTE_READ\<rparr>
           else if 0x400006 \<le> a \<and> a < 0x400008 then
             Some \<lparr>BaseAddress = 0x400006, RegionSize = 2, Protect = PAGE_READWRITE\<rparr>
           else example_regions a),
        contents := example_live\<rparr>"

text \<open>A host on which \<^verbatim>\<open>VirtualQuery\<close> succeeds for the first region only.\<close>

definition example_query_fails :: "64 word host" where
  "example_query_fails =
     example_host\<lparr>VirtualQuery := (\<lambda>a. if a < 0x400004 then example_regions a else None)\<rparr>"

text \<open>The monitor with the snapshot of the execute-read region, before a sweep.\<close>

definition example_monitor :: "string list \<Rightarrow> 64 word monitor" where
  "example_monitor input = \<lparr>PageSet = [example_Page], cin = input, cout = []\<rparr>"

text \<open>The snapshot of the read-only region at the module's base.\<close>

definition example_Header :: "64 word MEM_DIFF" where
  "example_Header =
     \<lparr>Checksum = 0x240,
      BasicInformation = \<lparr>BaseAddress = 0x400000, RegionSize = 4, Protect = PAGE_READONLY\<rparr>,
      PageData = [0x90, 0x90, 0x90, 0x90]\<rparr>"

section \<open>Properties\<close>

subsection \<open>The shape of a generated macro\<close>

lemma GeneratePairMacro_loop_eq:
  "Item \<le> length List \<Longrightarrow>
   GeneratePairMacro_loop List Item Macros =
     Macros @ map (\<lambda>k. (VarInit k (fst (List ! k)), WriteInit k (snd (List ! k))))
                  [Item..<length List]"
proof (induction List Item Macros rule: GeneratePairMacro_loop.induct)
  case (1 List Item Macros)
  show ?case
  proof (cases "Item < length List")
    case True
    then have "[Item..<length List] = Item # [Suc Item..<length List]"
      by (simp add: upt_conv_Cons)
    with True "1.IH" show ?thesis
      by (subst GeneratePairMacro_loop.simps) simp
  next
    case False
    then show ?thesis
      by (subst GeneratePairMacro_loop.simps) simp
  qed
qed

lemma GeneratePairMacro_eq:
  "GeneratePairMacro MacroName List =
     (FunctionInit (if MacroName = '''' then ''DefaultMacroName'' else MacroName), ''}'')
       # map (\<lambda>k. (VarInit k (fst (List ! k)), WriteInit k (snd (List ! k))))
             [0..<length List]"
  by (simp add: GeneratePairMacro_def GeneratePairMacro_loop_eq)

text \<open>
  C10. For every name and every list of changes, the empty one included,
  \<^verbatim>\<open>GeneratePairMacro\<close> returns the header/footer pair followed by one pair of
  statements per change: the result has one element more than the list, it is never
  empty, and \<^verbatim>\<open>OutputMacro\<close> applied to it reads \<^verbatim>\<open>Macros[0]\<close> in range.
\<close>

theorem GeneratePairMacro_nonempty:
  "length (GeneratePairMacro MacroName List) = length List + 1
   \<and> GeneratePairMacro MacroName List \<noteq> []
   \<and> hd (GeneratePairMacro MacroName List)
       = (FunctionInit (if MacroName = '''' then ''DefaultMacroName'' else MacroName), ''}'')
   \<and> tl (GeneratePairMacro MacroName List)
       = map (\<lambda>k. (VarInit k (fst (List ! k)), WriteInit k (snd (List ! k)))) [0..<length List]
   \<and> OutputMacro (GeneratePairMacro MacroName List) \<noteq> None"
  by (simp add: GeneratePairMacro_eq OutputMacro_def)


lemma OutputMacro_GeneratePairMacro:
  "\<exists>text. OutputMacro (GeneratePairMacro MacroName List) = Some text"
  by (simp add: GeneratePairMacro_eq OutputMacro_def)

subsection \<open>The byte comparison\<close>

lemma ComparePages_loop_eq:
  assumes "PageSize \<le> length Page"
  shows "PageIter \<le> PageSize \<Longrightarrow>
    ComparePages_loop Page mem PageSize PageIter (AltPage + of_nat PageIter) Ch Or =
      Some (Ch @ map (\<lambda>i. (mem (AltPage + of_nat i), AltPage + of_nat i))
                   (filter (\<lambda>i. Page ! i \<noteq> mem (AltPage + of_nat i)) [PageIter..<PageSize]),
            Or @ map (\<lambda>i. (Page ! i, AltPage + of_nat i))
                   (filter (\<lambda>i. Page ! i \<noteq> mem (AltPage + of_nat i)) [PageIter..<PageSize]))"
proof (induction "PageSize - PageIter" arbitrary: PageIter Ch Or)
  case 0
  then have "PageIter = PageSize" by simp
  then show ?case
    by (subst ComparePages_loop.simps) simp
next
  case (Suc n)
  then have less: "PageIter < PageSize" and n: "n = PageSize - Suc PageIter"
    and le: "Suc PageIter \<le> PageSize"
    by simp_all
  have next_addr: "AltPage + of_nat PageIter + 1 = AltPage + of_nat (Suc PageIter)"
    by simp
  have upt: "[PageIter..<PageSize] = PageIter # [Suc PageIter..<PageSize]"
    using less by (simp add: upt_conv_Cons)
  from less assms have inb: "PageIter < length Page" by simp
  show ?case
    apply (subst ComparePages_loop.simps)
    apply (simp only: next_addr Suc.hyps(1) [OF n le] upt)
    using less inb apply simp
    done
qed

lemma ComparePages_eq:
  assumes "unat PageSize \<le> length Page"
  shows "ComparePages Page mem AltPage PageSize =
      Some (map (\<lambda>i. (mem (AltPage + of_nat i), AltPage + of_nat i))
                   (filter (\<lambda>i. Page ! i \<noteq> mem (AltPage + of_nat i)) [0..<unat PageSize]),
            map (\<lambda>i. (Page ! i, AltPage + of_nat i))
                   (filter (\<lambda>i. Page ! i \<noteq> mem (AltPage + of_nat i)) [0..<unat PageSize]))"
  using ComparePages_loop_eq [OF assms, of 0 mem AltPage "[]" "[]"]
  by (simp add: ComparePages_def)

lemma unat_offset:
  fixes A :: "'a::len word"
  assumes "unat A + i < 2 ^ LENGTH('a)"
  shows "unat (A + of_nat i) = unat A + i"
proof -
  from assms have i: "i < 2 ^ LENGTH('a)" by simp
  then have u: "unat (of_nat i :: 'a word) = i"
    by (simp add: unat_of_nat)
  with assms have "unat A + unat (of_nat i :: 'a word) < 2 ^ LENGTH('a)" by simp
  then have "unat (A + of_nat i) = unat A + unat (of_nat i :: 'a word)"
    by (simp add: unat_add_lem)
  with u show ?thesis by simp
qed

lemma offsets_ascending:
  fixes A :: "'a::len word"
  assumes "unat A + n \<le> 2 ^ LENGTH('a)"
  shows "sorted_wrt (<) (map (\<lambda>i. A + of_nat i) (filter P [0..<n]))"
proof -
  have "sorted_wrt (\<lambda>i j. i < j \<and> j < n) [0..<n]"
    by (simp add: sorted_wrt_iff_nth_less)
  then have "sorted_wrt (\<lambda>i j. i < j \<and> j < n) (filter P [0..<n])"
    by (rule sorted_wrt_filter)
  moreover have "A + of_nat i < A + of_nat j" if "i < j \<and> j < n" for i j
  proof -
    from that assms have "unat A + i < 2 ^ LENGTH('a)" "unat A + j < 2 ^ LENGTH('a)"
      by simp_all
    then have "unat (A + of_nat i) = unat A + i" "unat (A + of_nat j) = unat A + j"
      by (simp_all add: unat_offset)
    with that show ?thesis
      by (simp add: word_less_nat_alt)
  qed
  ultimately have "sorted_wrt (\<lambda>i j. A + of_nat i < A + of_nat j) (filter P [0..<n])"
    by (rule sorted_wrt_mono_rel [rotated]) simp
  then show ?thesis
    by (simp add: sorted_wrt_map)
qed

lemma no_difference_iff:
  fixes A :: "'a::len word"
  assumes "length Page = unat PageSize"
  shows "filter (\<lambda>i. Page ! i \<noteq> mem (A + of_nat i)) [0..<unat PageSize] = []
         \<longleftrightarrow> Page = bytes_at mem A PageSize"
proof
  assume "filter (\<lambda>i. Page ! i \<noteq> mem (A + of_nat i)) [0..<unat PageSize] = []"
  then have "\<forall>i<unat PageSize. Page ! i = mem (A + of_nat i)"
    by (simp add: filter_empty_conv)
  with assms show "Page = bytes_at mem A PageSize"
    by (intro nth_equalityI) (simp_all add: bytes_at_def)
next
  assume "Page = bytes_at mem A PageSize"
  then have "Page ! i = mem (A + of_nat i)" if "i < unat PageSize" for i
    using that by (simp add: bytes_at_def)
  then show "filter (\<lambda>i. Page ! i \<noteq> mem (A + of_nat i)) [0..<unat PageSize] = []"
    by (simp add: filter_empty_conv)
qed

text \<open>
  C1. Let the snapshot buffer \<open>Page\<close> have as many bytes as the live region, \<open>PageSize\<close>,
  and let the live region lie within the address space. Then \<^verbatim>\<open>ComparePages\<close> returns
  two lists with one entry for each offset at which the two buffers differ and none for
  any other offset, in the order of the offsets: the entry of the first list holds the
  live byte, the entry of the second the snapshot's byte, and both hold the address
  \<open>AltPage + offset\<close>. The addresses are strictly ascending, and the lists are empty
  exactly when the snapshot equals the live region.
\<close>

theorem ComparePages_diff:
  fixes AltPage PageSize :: "'a::len word"
  assumes len: "length Page = unat PageSize"
      and region: "unat AltPage + unat PageSize \<le> 2 ^ LENGTH('a)"
  shows "\<exists>ChangedBytes OriginBytes.
           ComparePages Page mem AltPage PageSize = Some (ChangedBytes, OriginBytes)
         \<and> ChangedBytes = map (\<lambda>i. (mem (AltPage + of_nat i), AltPage + of_nat i))
               (filter (\<lambda>i. Page ! i \<noteq> mem (AltPage + of_nat i)) [0..<unat PageSize])
         \<and> OriginBytes = map (\<lambda>i. (Page ! i, AltPage + of_nat i))
               (filter (\<lambda>i. Page ! i \<noteq> mem (AltPage + of_nat i)) [0..<unat PageSize])
         \<and> sorted_wrt (<) (map snd ChangedBytes)
         \<and> sorted_wrt (<) (map snd OriginBytes)
         \<and> (ChangedBytes = [] \<longleftrightarrow> Page = bytes_at mem AltPage PageSize)
         \<and> (OriginBytes = [] \<longleftrightarrow> Page = bytes_at mem AltPage PageSize)"
proof -
  let ?D = "filter (\<lambda>i. Page ! i \<noteq> mem (AltPage + of_nat i)) [0..<unat PageSize]"
  have asc: "sorted_wrt (<) (map (\<lambda>i. AltPage + of_nat i) ?D)"
    using region by (rule offsets_ascending)
  have empty: "?D = [] \<longleftrightarrow> Page = bytes_at mem AltPage PageSize"
    using len by (rule no_difference_iff)
  from len have "unat PageSize \<le> length Page" by simp
  then have "ComparePages Page mem AltPage PageSize =
      Some (map (\<lambda>i. (mem (AltPage + of_nat i), AltPage + of_nat i)) ?D,
            map (\<lambda>i. (Page ! i, AltPage + of_nat i)) ?D)"
    by (rule ComparePages_eq)
  moreover have "map snd (map (\<lambda>i. (mem (AltPage + of_nat i), AltPage + of_nat i)) ?D)
      = map (\<lambda>i. AltPage + of_nat i) ?D"
    by (simp add: comp_def)
  moreover have "map snd (map (\<lambda>i. (Page ! i, AltPage + of_nat i)) ?D)
      = map (\<lambda>i. AltPage + of_nat i) ?D"
    by (simp add: comp_def)
  ultimately show ?thesis
    using asc empty by (simp del: map_map)
qed


theorem ComparePages_diff_witness:
  "ComparePages (PageData example_Page) example_live example_base 4
     = Some ([(0xCC, 0x400006)], [(0x90, 0x400006)])
   \<and> PageData example_Page \<noteq> bytes_at example_live example_base 4"
proof -
  have len: "length (PageData example_Page) = unat (4 :: 64 word)"
    by (simp add: example_Page_def)
  have region: "unat example_base + unat (4 :: 64 word) \<le> 2 ^ LENGTH(64)"
    by (simp add: example_base_def)
  have offsets: "[0..<4] = [0, 1, 2, 3::nat]"
    by (simp add: upt_rec)
  have D: "filter (\<lambda>i. PageData example_Page ! i \<noteq> example_live (example_base + of_nat i))
             [0..<unat (4 :: 64 word)] = [2]"
    by (simp add: example_Page_def example_live_def example_original_def example_base_def
          offsets)
  from ComparePages_diff [OF len region, of example_live] show ?thesis
    unfolding D
    by (auto simp add: example_Page_def example_live_def example_original_def example_base_def)
qed


lemma ComparePages_loop_overrun:
  assumes "length Page < PageSize"
  shows "PageIter \<le> length Page \<Longrightarrow>
    ComparePages_loop Page mem PageSize PageIter AltPageIter Ch Or = None"
proof (induction "length Page - PageIter" arbitrary: PageIter AltPageIter Ch Or)
  case 0
  with assms show ?case
    by (subst ComparePages_loop.simps) simp
next
  case (Suc n)
  then have "n = length Page - Suc PageIter" "Suc PageIter \<le> length Page"
    by simp_all
  then have "ComparePages_loop Page mem PageSize (Suc PageIter) A C R = None" for A C R
    by (rule Suc.hyps(1))
  moreover from Suc.hyps(2) assms have "PageIter < length Page" "PageIter < PageSize"
    by simp_all
  ultimately show ?case
    by (subst ComparePages_loop.simps) simp
qed

text \<open>
  With a size beyond the snapshot buffer the source reads past the end of the vector:
  the model has no result there.
\<close>

lemma ComparePages_overrun:
  "length Page < unat PageSize \<Longrightarrow> ComparePages Page mem AltPage PageSize = None"
  by (simp add: ComparePages_def ComparePages_loop_overrun)

lemma bytes_at_nth:
  "i < unat End \<Longrightarrow> bytes_at mem Start End ! i = mem (Start + of_nat i)"
  by (simp add: bytes_at_def)

lemma ComparePages_cong:
  assumes size: "unat PageSize \<le> length Page" "unat PageSize \<le> length Page'"
      and same: "\<And>i. i < unat PageSize \<Longrightarrow> Page' ! i = Page ! i"
      and mem: "\<And>i. i < unat PageSize \<Longrightarrow> mem' (AltPage + of_nat i) = mem (AltPage + of_nat i)"
  shows "ComparePages Page' mem' AltPage PageSize = ComparePages Page mem AltPage PageSize"
proof -
  have D: "filter (\<lambda>i. Page' ! i \<noteq> mem' (AltPage + of_nat i)) [0..<unat PageSize]
      = filter (\<lambda>i. Page ! i \<noteq> mem (AltPage + of_nat i)) [0..<unat PageSize]"
    by (rule filter_cong) (simp_all add: same mem)
  have "map (\<lambda>i. (mem' (AltPage + of_nat i), AltPage + of_nat i))
          (filter (\<lambda>i. Page ! i \<noteq> mem (AltPage + of_nat i)) [0..<unat PageSize])
      = map (\<lambda>i. (mem (AltPage + of_nat i), AltPage + of_nat i))
          (filter (\<lambda>i. Page ! i \<noteq> mem (AltPage + of_nat i)) [0..<unat PageSize])"
    by (rule map_cong) (simp_all add: mem)
  moreover have "map (\<lambda>i. (Page' ! i, AltPage + of_nat i))
          (filter (\<lambda>i. Page ! i \<noteq> mem (AltPage + of_nat i)) [0..<unat PageSize])
      = map (\<lambda>i. (Page ! i, AltPage + of_nat i))
          (filter (\<lambda>i. Page ! i \<noteq> mem (AltPage + of_nat i)) [0..<unat PageSize])"
    by (rule map_cong) (simp_all add: same)
  ultimately show ?thesis
    by (simp only: ComparePages_eq [OF size(1)] ComparePages_eq [OF size(2)] D)
qed

lemma ComparePages_total:
  "ComparePages Page mem AltPage PageSize =
     (if unat PageSize \<le> length Page
      then Some (map (\<lambda>i. (mem (AltPage + of_nat i), AltPage + of_nat i))
                   (filter (\<lambda>i. Page ! i \<noteq> mem (AltPage + of_nat i)) [0..<unat PageSize]),
                 map (\<lambda>i. (Page ! i, AltPage + of_nat i))
                   (filter (\<lambda>i. Page ! i \<noteq> mem (AltPage + of_nat i)) [0..<unat PageSize]))
      else None)"
  by (simp add: ComparePages_eq ComparePages_overrun)

lemma body_compares:
  assumes size: "unat (RegionSize (BasicInformation Page)) \<le> length (PageData Page)"
      and mismatch: "EvaluatePage crc_crypt mem Page \<noteq> 0"
  shows "\<exists>apply_text undo_text.
           EvaluatePageList_body crc_crypt mem s Page
             = Some (s\<lparr>cin := snd (getline (cin s)),
                      cout := cout s
                        @ [Page_change (BaseAddress (BasicInformation Page))
                             (EvaluatePage crc_crypt mem Page) (Checksum Page)]
                        @ ComparePages_cout
                            (map (\<lambda>i. (mem (BaseAddress (BasicInformation Page) + of_nat i),
                                       BaseAddress (BasicInformation Page) + of_nat i))
                               (filter (\<lambda>i. PageData Page ! i
                                           \<noteq> mem (BaseAddress (BasicInformation Page) + of_nat i))
                                  [0..<unat (RegionSize (BasicInformation Page))]))
                        @ [Macro_name_prompt, Macro_text apply_text, Macro_text undo_text]\<rparr>)"
proof -
  let ?Ch = "map (\<lambda>i. (mem (BaseAddress (BasicInformation Page) + of_nat i),
                                       BaseAddress (BasicInformation Page) + of_nat i))
                               (filter (\<lambda>i. PageData Page ! i
                                           \<noteq> mem (BaseAddress (BasicInformation Page) + of_nat i))
                                  [0..<unat (RegionSize (BasicInformation Page))])"
  let ?Or = "map (\<lambda>i. (PageData Page ! i, BaseAddress (BasicInformation Page) + of_nat i))
                               (filter (\<lambda>i. PageData Page ! i
                                           \<noteq> mem (BaseAddress (BasicInformation Page) + of_nat i))
                                  [0..<unat (RegionSize (BasicInformation Page))])"
  define ChangedData where "ChangedData = (?Ch, ?Or)"
  have C: "ComparePages (PageData Page) mem (BaseAddress (BasicInformation Page))
      (RegionSize (BasicInformation Page)) = Some ChangedData"
    unfolding ChangedData_def using size by (rule ComparePages_eq)
  obtain apply_text where
    A: "OutputMacro (GeneratePairMacro (fst (getline (cin s))) (fst ChangedData)) = Some apply_text"
    using OutputMacro_GeneratePairMacro by blast
  obtain undo_text where
    U: "OutputMacro (GeneratePairMacro (''Undo'' @ fst (getline (cin s))) (snd ChangedData))
          = Some undo_text"
    using OutputMacro_GeneratePairMacro by blast
  from mismatch C A U have "EvaluatePageList_body crc_crypt mem s Page
             = Some (s\<lparr>cin := snd (getline (cin s)),
                      cout := cout s
                        @ [Page_change (BaseAddress (BasicInformation Page))
                             (EvaluatePage crc_crypt mem Page) (Checksum Page)]
                        @ ComparePages_cout (fst ChangedData)
                        @ [Macro_name_prompt, Macro_text apply_text, Macro_text undo_text]\<rparr>)"
    by (simp add: EvaluatePageList_body_def Let_def split_beta)
  moreover have "fst ChangedData = ?Ch"
    by (simp add: ChangedData_def)
  ultimately show ?thesis
    by (simp only:) blast
qed

text \<open>
  C3, as the source has it. \<^verbatim>\<open>ComparePages\<close> is given one size; it has no
  \<^verbatim>\<open>RegionSizeMismatch\<close> result and the current size of the live region is not an input.
  Given a size that does not exceed the length of the snapshot buffer, it returns the
  comparison of exactly the first \<open>PageSize\<close> positions: one entry for each offset below
  \<open>PageSize\<close> at which the snapshot and the live bytes differ, with the address
  \<open>AltPage + offset\<close>, and nothing for any other offset. The bytes of the snapshot beyond
  \<open>PageSize\<close> and the bytes of the address space outside these \<open>PageSize\<close> bytes have no
  influence on the result. Given a size beyond the snapshot buffer, the source reads past
  the end of the buffer, where the model has no result. The monitoring loop calls it
  with the region size stored in the snapshot: the lines it prints for a page whose
  checksum has changed are those of the comparison over that many positions.
\<close>

theorem ComparePages_single_size:
  fixes AltPage PageSize :: "'a::len word" and P :: "'a word MEM_DIFF"
  shows "ComparePages Page mem AltPage PageSize =
           (if unat PageSize \<le> length Page
            then Some (map (\<lambda>i. (mem (AltPage + of_nat i), AltPage + of_nat i))
                         (filter (\<lambda>i. Page ! i \<noteq> mem (AltPage + of_nat i)) [0..<unat PageSize]),
                       map (\<lambda>i. (Page ! i, AltPage + of_nat i))
                         (filter (\<lambda>i. Page ! i \<noteq> mem (AltPage + of_nat i)) [0..<unat PageSize]))
            else None)
       \<and> (unat PageSize \<le> length Page \<longrightarrow>
             ComparePages (take (unat PageSize) Page) mem AltPage PageSize
               = ComparePages Page mem AltPage PageSize
           \<and> (bytes_at mem' AltPage PageSize = bytes_at mem AltPage PageSize
                \<longrightarrow> ComparePages Page mem' AltPage PageSize
                      = ComparePages Page mem AltPage PageSize))
       \<and> (unat (RegionSize (BasicInformation P)) \<le> length (PageData P)
            \<and> EvaluatePage crc_crypt mem P \<noteq> 0 \<longrightarrow>
             (\<exists>apply_text undo_text.
                EvaluatePageList_body crc_crypt mem s P
                  = Some (s\<lparr>cin := snd (getline (cin s)),
                           cout := cout s
                             @ [Page_change (BaseAddress (BasicInformation P))
                                  (EvaluatePage crc_crypt mem P) (Checksum P)]
                             @ ComparePages_cout
                                 (map (\<lambda>i. (mem (BaseAddress (BasicInformation P) + of_nat i),
                                            BaseAddress (BasicInformation P) + of_nat i))
                                    (filter (\<lambda>i. PageData P ! i
                                                \<noteq> mem (BaseAddress (BasicInformation P) + of_nat i))
                                       [0..<unat (RegionSize (BasicInformation P))]))
                             @ [Macro_name_prompt, Macro_text apply_text, Macro_text undo_text]\<rparr>)))"
proof (intro conjI impI)
  show "ComparePages Page mem AltPage PageSize =
           (if unat PageSize \<le> length Page
            then Some (map (\<lambda>i. (mem (AltPage + of_nat i), AltPage + of_nat i))
                         (filter (\<lambda>i. Page ! i \<noteq> mem (AltPage + of_nat i)) [0..<unat PageSize]),
                       map (\<lambda>i. (Page ! i, AltPage + of_nat i))
                         (filter (\<lambda>i. Page ! i \<noteq> mem (AltPage + of_nat i)) [0..<unat PageSize]))
            else None)"
    by (rule ComparePages_total)
next
  assume le: "unat PageSize \<le> length Page"
  then have "unat PageSize \<le> length (take (unat PageSize) Page)"
    by simp
  with le show "ComparePages (take (unat PageSize) Page) mem AltPage PageSize
           = ComparePages Page mem AltPage PageSize"
    by (rule ComparePages_cong) simp_all
next
  assume le: "unat PageSize \<le> length Page"
    and eq: "bytes_at mem' AltPage PageSize = bytes_at mem AltPage PageSize"
  have "mem' (AltPage + of_nat i) = mem (AltPage + of_nat i)" if "i < unat PageSize" for i
    using that bytes_at_nth [of i PageSize mem' AltPage] bytes_at_nth [of i PageSize mem AltPage] eq
    by simp
  then show "ComparePages Page mem' AltPage PageSize = ComparePages Page mem AltPage PageSize"
    by (intro ComparePages_cong [OF le le]) simp_all
next
  assume "unat (RegionSize (BasicInformation P)) \<le> length (PageData P)
            \<and> EvaluatePage crc_crypt mem P \<noteq> 0"
  then show "\<exists>apply_text undo_text.
                EvaluatePageList_body crc_crypt mem s P
                  = Some (s\<lparr>cin := snd (getline (cin s)),
                           cout := cout s
                             @ [Page_change (BaseAddress (BasicInformation P))
                                  (EvaluatePage crc_crypt mem P) (Checksum P)]
                             @ ComparePages_cout
                                 (map (\<lambda>i. (mem (BaseAddress (BasicInformation P) + of_nat i),
                                            BaseAddress (BasicInformation P) + of_nat i))
                                    (filter (\<lambda>i. PageData P ! i
                                                \<noteq> mem (BaseAddress (BasicInformation P) + of_nat i))
                                       [0..<unat (RegionSize (BasicInformation P))]))
                             @ [Macro_name_prompt, Macro_text apply_text, Macro_text undo_text]\<rparr>)"
    using body_compares [of P crc_crypt mem s] by blast
qed

theorem ComparePages_single_size_witness:
  "length (PageData example_Page) = 4
   \<and> ComparePages (PageData example_Page) example_live example_base 3
       = Some ([(0xCC, 0x400006)], [(0x90, 0x400006)])
   \<and> ComparePages (PageData example_Page) example_live example_base 5 = None
   \<and> ComparePages (take (unat (3 :: 64 word)) (PageData example_Page)) example_live example_base 3
       = Some ([(0xCC, 0x400006)], [(0x90, 0x400006)])
   \<and> ComparePages (PageData example_Page) (example_live(0x400007 := 0x11)) example_base 3
       = Some ([(0xCC, 0x400006)], [(0x90, 0x400006)])
   \<and> (\<exists>apply_text undo_text.
         EvaluatePageList_body example_crc (contents example_shrunk) (example_monitor [''Patch''])
           example_Page
         = Some \<lparr>PageSet = [example_Page], cin = [],
                 cout = [Page_change 0x400004 0x27C 0x240, Change_Address 0x400006 0xCC,
                         Macro_name_prompt, Macro_text apply_text, Macro_text undo_text]\<rparr>)"
proof -
  have len: "length (PageData example_Page) = 4"
    by (simp add: example_Page_def)
  then have le: "unat (3 :: 64 word) \<le> length (PageData example_Page)"
    by simp
  have offsets: "[0..<3] = [0, 1, 2::nat]" "[0..<4] = [0, 1, 2, 3::nat]"
    by (simp_all add: upt_rec)
  have same: "bytes_at (example_live(0x400007 := 0x11)) example_base 3
      = bytes_at example_live example_base 3"
    by (simp add: bytes_at_def example_base_def offsets)
  have D3: "filter (\<lambda>i. PageData example_Page ! i \<noteq> example_live (example_base + of_nat i))
              [0..<unat (3 :: 64 word)] = [2]"
    by (simp add: example_Page_def example_live_def example_original_def example_base_def offsets)
  have big: "\<not> unat (5 :: 64 word) \<le> length (PageData example_Page)"
    by (simp add: len)
  have called: "unat (RegionSize (BasicInformation example_Page)) \<le> length (PageData example_Page)
      \<and> EvaluatePage example_crc (contents example_shrunk) example_Page \<noteq> 0"
    by code_simp
  have D4: "filter (\<lambda>i. PageData example_Page ! i
                \<noteq> contents example_shrunk (BaseAddress (BasicInformation example_Page) + of_nat i))
              [0..<unat (RegionSize (BasicInformation example_Page))] = [2]"
    by (simp add: example_Page_def example_Info_def example_shrunk_def example_live_def
          example_original_def offsets)
  have sum: "EvaluatePage example_crc (contents example_shrunk) example_Page = 0x27C"
    by code_simp
  note thm3 = ComparePages_single_size [of "PageData example_Page" example_live example_base 3
      "example_live(0x400007 := 0x11)" example_Page example_crc "example_monitor [''Patch'']"]
  note thm5 = ComparePages_single_size [of "PageData example_Page" example_live example_base 5
      example_live example_Page example_crc "example_monitor [''Patch'']"]
  note thmS = ComparePages_single_size [of "PageData example_Page" "contents example_shrunk"
      example_base 3 "contents example_shrunk" example_Page example_crc
      "example_monitor [''Patch'']"]
  have r3: "ComparePages (PageData example_Page) example_live example_base 3
       = Some ([(0xCC, 0x400006)], [(0x90, 0x400006)])"
    using thm3 le unfolding D3
    by (simp add: example_Page_def example_live_def example_original_def example_base_def)
  have r5: "ComparePages (PageData example_Page) example_live example_base 5 = None"
    using thm5 big by simp
  have rt: "ComparePages (take (unat (3 :: 64 word)) (PageData example_Page)) example_live
      example_base 3 = Some ([(0xCC, 0x400006)], [(0x90, 0x400006)])"
    using thm3 le r3 by simp
  have rm: "ComparePages (PageData example_Page) (example_live(0x400007 := 0x11)) example_base 3
       = Some ([(0xCC, 0x400006)], [(0x90, 0x400006)])"
    using thm3 le same r3 by simp
  from thmS called obtain apply_text undo_text where
    "EvaluatePageList_body example_crc (contents example_shrunk) (example_monitor [''Patch''])
       example_Page
     = Some ((example_monitor [''Patch''])\<lparr>cin := snd (getline (cin (example_monitor [''Patch'']))),
          cout := cout (example_monitor [''Patch''])
            @ [Page_change (BaseAddress (BasicInformation example_Page))
                 (EvaluatePage example_crc (contents example_shrunk) example_Page)
                 (Checksum example_Page)]
            @ ComparePages_cout
                (map (\<lambda>i. (contents example_shrunk
                              (BaseAddress (BasicInformation example_Page) + of_nat i),
                           BaseAddress (BasicInformation example_Page) + of_nat i))
                   (filter (\<lambda>i. PageData example_Page ! i
                               \<noteq> contents example_shrunk
                                   (BaseAddress (BasicInformation example_Page) + of_nat i))
                      [0..<unat (RegionSize (BasicInformation example_Page))]))
            @ [Macro_name_prompt, Macro_text apply_text, Macro_text undo_text]\<rparr>)"
    by blast
  then have "EvaluatePageList_body example_crc (contents example_shrunk)
       (example_monitor [''Patch'']) example_Page
     = Some \<lparr>PageSet = [example_Page], cin = [],
                 cout = [Page_change 0x400004 0x27C 0x240, Change_Address 0x400006 0xCC,
                         Macro_name_prompt, Macro_text apply_text, Macro_text undo_text]\<rparr>"
    unfolding D4 sum
    by (simp add: example_monitor_def ComparePages_cout_def example_Page_def example_Info_def
          example_shrunk_def example_live_def example_original_def)
  with len r3 r5 rt rm show ?thesis
    by blast
qed

text \<open>
  C3 as the specification states it fails. The live region has shrunk to two bytes and
  the snapshot holds four. Called as the monitor calls it, with the stored region size,
  \<^verbatim>\<open>ComparePages\<close> compares four positions and reports the byte at offset 2, which lies
  beyond the live region; called with the size of the live region it compares the first
  two positions only. Neither call fails.
\<close>

theorem ComparePages_size_mismatch_counterexample:
  "map_option RegionSize (VirtualQuery example_shrunk example_base) = Some 2
   \<and> length (PageData example_Page) = 4
   \<and> ComparePages (PageData example_Page) (contents example_shrunk)
        (BaseAddress (BasicInformation example_Page)) (RegionSize (BasicInformation example_Page))
       = Some ([(0xCC, 0x400006)], [(0x90, 0x400006)])
   \<and> ComparePages (PageData example_Page) (contents example_shrunk)
        (BaseAddress (BasicInformation example_Page)) 2
       = Some ([], [])"
  by code_simp


subsection \<open>Capture and the lifetime of a snapshot\<close>

text \<open>An address below another one has a successor that does not wrap around.\<close>

lemma unat_next:
  fixes x y :: "'a::len word"
  assumes "x < y"
  shows "unat (x + 1) = Suc (unat x)"
proof -
  from assms have "x \<noteq> - 1"
    by (metis word_order.extremum leD)
  then have "1 + x \<noteq> 0"
    by (simp add: add_eq_0_iff)
  then have "unat (1 + x) = Suc (unat x)"
    by (rule unatSuc)
  then show ?thesis
    by (simp only: add.commute [of x 1])
qed

lemma EstablishPage_loop_eq:
  fixes bound :: "'a::len word"
  shows "ByteIter \<le> bound \<Longrightarrow>
    EstablishPage_loop mem bound ByteIter Data =
      Data @ map (\<lambda>i. mem (ByteIter + of_nat i)) [0..<unat bound - unat ByteIter]"
proof (induction "unat bound - unat ByteIter" arbitrary: ByteIter Data)
  case 0
  then have "\<not> ByteIter < bound"
    by (simp add: word_less_nat_alt)
  with 0 show ?case
    by (subst EstablishPage_loop.simps) simp
next
  case (Suc n)
  then have less: "ByteIter < bound"
    by (simp add: word_less_nat_alt)
  then have next_unat: "unat (ByteIter + 1) = Suc (unat ByteIter)"
    by (rule unat_next)
  with Suc.hyps(2) less have n: "n = unat bound - unat (ByteIter + 1)" and le: "ByteIter + 1 \<le> bound"
    by (simp_all add: word_less_nat_alt word_le_nat_alt)
  have upt: "[0..<unat bound - unat ByteIter] = 0 # map Suc [0..<n]"
    using Suc.hyps(2) by (simp add: upt_conv_Cons map_Suc_upt del: upt_Suc)
  have shift: "ByteIter + 1 + of_nat i = ByteIter + of_nat (Suc i)" for i
    by simp
  show ?case
    apply (subst EstablishPage_loop.simps)
    apply (simp only: Suc.hyps(1) [OF n le] upt shift)
    using less apply (simp add: comp_def n [symmetric])
    done
qed

lemma EstablishPage_loop_region:
  fixes Base Size :: "'a::len word"
  assumes "unat Base + unat Size < 2 ^ LENGTH('a)"
  shows "EstablishPage_loop mem (Base + Size) Base [] = bytes_at mem Base Size"
proof -
  from assms have sum: "unat (Base + Size) = unat Base + unat Size"
    by (simp add: unat_add_lem)
  then have "Base \<le> Base + Size"
    by (simp add: word_le_nat_alt)
  then show ?thesis
    by (simp add: EstablishPage_loop_eq sum bytes_at_def)
qed

lemma body_PageSet:
  "EvaluatePageList_body crc_crypt mem s Page = Some s' \<Longrightarrow> PageSet s' = PageSet s"
  by (auto simp add: EvaluatePageList_body_def Let_def split: if_splits option.splits prod.splits)

lemma for_PageSet:
  "EvaluatePageList_for crc_crypt mem s Pages = Some s' \<Longrightarrow> PageSet s' = PageSet s"
proof (induction Pages arbitrary: s)
  case Nil
  then show ?case by simp
next
  case (Cons Page Pages)
  then show ?case
    by (auto split: option.splits dest: body_PageSet)
qed

lemma while_PageSet:
  "EvaluatePageList_while crc_crypt mems s = Some s' \<Longrightarrow> PageSet s' = PageSet s"
proof (induction mems arbitrary: s)
  case Nil
  then show ?case by simp
next
  case (Cons mem mems)
  then show ?case
    by (auto split: option.splits dest: for_PageSet)
qed

lemma body_returns:
  assumes "length (PageData Page) = unat (RegionSize (BasicInformation Page))"
  shows "\<exists>s'. EvaluatePageList_body crc_crypt mem s Page = Some s'"
proof -
  from assms have "unat (RegionSize (BasicInformation Page)) \<le> length (PageData Page)"
    by simp
  from ComparePages_eq [OF this]
  obtain ChangedData where "ComparePages (PageData Page) mem (BaseAddress (BasicInformation Page))
      (RegionSize (BasicInformation Page)) = Some ChangedData"
    by blast
  moreover obtain MacroName rest where "getline (cin s) = (MacroName, rest)"
    by (cases "getline (cin s)")
  moreover obtain apply_text where
    "OutputMacro (GeneratePairMacro MacroName (fst ChangedData)) = Some apply_text"
    using OutputMacro_GeneratePairMacro by blast
  moreover obtain undo_text where
    "OutputMacro (GeneratePairMacro (''Undo'' @ MacroName) (snd ChangedData)) = Some undo_text"
    using OutputMacro_GeneratePairMacro by blast
  ultimately show ?thesis
    by (simp add: EvaluatePageList_body_def Let_def)
qed

lemma for_returns:
  assumes "list_all (\<lambda>Page. length (PageData Page) = unat (RegionSize (BasicInformation Page))) Pages"
  shows "\<exists>s'. EvaluatePageList_for crc_crypt mem s Pages = Some s'"
  using assms
proof (induction Pages arbitrary: s)
  case Nil
  then show ?case by simp
next
  case (Cons Page Pages)
  then obtain s1 where "EvaluatePageList_body crc_crypt mem s Page = Some s1"
    using body_returns [of Page crc_crypt mem s] by auto
  with Cons show ?case
    by simp
qed

lemma while_returns:
  assumes "list_all (\<lambda>Page. length (PageData Page) = unat (RegionSize (BasicInformation Page)))
             (PageSet s)"
  shows "\<exists>s'. EvaluatePageList_while crc_crypt mems s = Some s'"
  using assms
proof (induction mems arbitrary: s)
  case Nil
  then show ?case by simp
next
  case (Cons mem mems)
  then obtain s1 where s1: "EvaluatePageList_for crc_crypt mem s (PageSet s) = Some s1"
    using for_returns [of "PageSet s" crc_crypt mem s] by auto
  then have "PageSet s1 = PageSet s"
    by (rule for_PageSet)
  with Cons s1 show ?case
    by simp
qed

text \<open>
  C7. Let the region reported to \<^verbatim>\<open>EstablishPage\<close> lie within the address space, its end
  address included. Then \<^verbatim>\<open>EstablishPage\<close> appends one snapshot to the list: its buffer
  has as many bytes as the region's reported size, the bytes are those of the region in
  order, its descriptor is the one reported, and its checksum is \<^verbatim>\<open>GetChecksum\<close> of the
  buffer. No sweep of the monitoring loop changes the page set, so the snapshot stays
  as it was captured.
\<close>

theorem EstablishPage_snapshot:
  fixes Info :: "'a::len word MEMORY_BASIC_INFORMATION"
  assumes "unat (BaseAddress Info) + unat (RegionSize Info) < 2 ^ LENGTH('a)"
  shows "\<exists>DiffBlock.
           fst (EstablishPage crc_crypt mem DiffList Info) = DiffList @ [DiffBlock]
         \<and> BasicInformation DiffBlock = Info
         \<and> length (PageData DiffBlock) = unat (RegionSize Info)
         \<and> PageData DiffBlock = bytes_at mem (BaseAddress Info) (RegionSize Info)
         \<and> Checksum DiffBlock = GetChecksum crc_crypt (PageData DiffBlock)
         \<and> (\<forall>mems s s'. PageSet s = DiffList @ [DiffBlock]
               \<and> EvaluatePageList_while crc_crypt mems s = Some s'
               \<longrightarrow> PageSet s' = DiffList @ [DiffBlock])"
proof -
  let ?Data = "EstablishPage_loop mem (BaseAddress Info + RegionSize Info) (BaseAddress Info) []"
  let ?DiffBlock = "\<lparr>Checksum = GetChecksum crc_crypt ?Data, BasicInformation = Info,
                     PageData = ?Data\<rparr> :: 'a word MEM_DIFF"
  have Data: "?Data = bytes_at mem (BaseAddress Info) (RegionSize Info)"
    using assms by (rule EstablishPage_loop_region)
  have "fst (EstablishPage crc_crypt mem DiffList Info) = DiffList @ [?DiffBlock]"
    by (simp add: EstablishPage_def Let_def)
  moreover have "length (PageData ?DiffBlock) = unat (RegionSize Info)"
    by (simp add: Data bytes_at_def)
  moreover have "PageData ?DiffBlock = bytes_at mem (BaseAddress Info) (RegionSize Info)"
    by (simp add: Data)
  moreover have "PageSet s' = DiffList @ [?DiffBlock]"
    if "PageSet s = DiffList @ [?DiffBlock] \<and> EvaluatePageList_while crc_crypt mems s = Some s'"
    for mems s s'
    using that while_PageSet [of crc_crypt mems s s'] by simp
  ultimately show ?thesis
    by (intro exI [of _ ?DiffBlock]) simp
qed

theorem EstablishPage_snapshot_witness:
  "fst (EstablishPage example_crc example_original [] example_Info) = [example_Page]
   \<and> PageData example_Page = bytes_at example_original 0x400004 4
   \<and> Checksum example_Page = GetChecksum example_crc (PageData example_Page)
   \<and> (\<exists>s'. EvaluatePageList_while example_crc [example_live, example_live]
              (example_monitor [''patch'']) = Some s'
           \<and> PageSet s' = [example_Page])"
proof -
  have "unat (BaseAddress example_Info) + unat (RegionSize example_Info) < 2 ^ LENGTH(64)"
    by (simp add: example_Info_def)
  from EstablishPage_snapshot [OF this, of example_crc example_original "[]"]
  obtain DiffBlock where
    D: "fst (EstablishPage example_crc example_original [] example_Info) = [] @ [DiffBlock]"
    and data: "PageData DiffBlock
                 = bytes_at example_original (BaseAddress example_Info) (RegionSize example_Info)"
    and sum: "Checksum DiffBlock = GetChecksum example_crc (PageData DiffBlock)"
    and life: "\<forall>mems s s'. PageSet s = [] @ [DiffBlock]
               \<and> EvaluatePageList_while example_crc mems s = Some s'
               \<longrightarrow> PageSet s' = [] @ [DiffBlock]"
    by blast
  have "fst (EstablishPage example_crc example_original [] example_Info) = [example_Page]"
    by code_simp
  with D have eq: "DiffBlock = example_Page"
    by simp
  have "list_all (\<lambda>Page. length (PageData Page) = unat (RegionSize (BasicInformation Page)))
          (PageSet (example_monitor [''patch'']))"
    by (simp add: example_monitor_def example_Page_def example_Info_def)
  then obtain s' where run: "EvaluatePageList_while example_crc [example_live, example_live]
      (example_monitor [''patch'']) = Some s'"
    using while_returns by blast
  have "PageSet (example_monitor [''patch'']) = [] @ [DiffBlock]"
    by (simp add: example_monitor_def eq)
  with life run have "PageSet s' = [] @ [DiffBlock]"
    by blast
  with eq have "PageSet s' = [example_Page]"
    by simp
  with run have "\<exists>s'. EvaluatePageList_while example_crc [example_live, example_live]
              (example_monitor [''patch'']) = Some s' \<and> PageSet s' = [example_Page]"
    by blast
  with D data sum eq show ?thesis
    by (simp add: example_Info_def)
qed


subsection \<open>Enumeration\<close>

lemma EstablishPage_appends:
  "\<exists>DiffBlock. fst (EstablishPage crc_crypt mem DiffList Info) = DiffList @ [DiffBlock]
     \<and> BasicInformation DiffBlock = Info"
  by (simp add: EstablishPage_def Let_def)

lemma GetModulePages_loop_protect:
  "GetModulePages_loop fuel crc_crypt h Module Size PageIter Info DiffList out
     = Some (DiffList', out')
   \<Longrightarrow> \<exists>new. DiffList' = DiffList @ new
        \<and> list_all (\<lambda>DiffBlock. Protect (BasicInformation DiffBlock) = PAGE_EXECUTE_READ
                        \<or> Protect (BasicInformation DiffBlock) = PAGE_READONLY) new"
proof (induction fuel arbitrary: PageIter Info DiffList out)
  case 0
  then show ?case by simp
next
  case (Suc fuel)
  show ?case
  proof (cases "PageIter < BaseAddress Info + ucast Size")
    case False
    with Suc.prems show ?thesis by simp
  next
    case True
    define Info' where "Info' = (case VirtualQuery h PageIter of None \<Rightarrow> Info | Some r \<Rightarrow> r)"
    show ?thesis
    proof (cases "BaseAddress Info' < Module + ucast Size
        \<and> (Protect Info' = PAGE_EXECUTE_READ \<or> Protect Info' = PAGE_READONLY)")
      case False
      with True Suc.prems
      have "GetModulePages_loop fuel crc_crypt h Module Size (PageIter + RegionSize Info') Info'
              DiffList out = Some (DiffList', out')"
        by (auto simp add: Info'_def Let_def split: if_splits)
      then show ?thesis
        by (rule Suc.IH)
    next
      case keep: True
      obtain DiffBlock where
        D: "fst (EstablishPage crc_crypt (contents h) DiffList Info') = DiffList @ [DiffBlock]"
        and I: "BasicInformation DiffBlock = Info'"
        using EstablishPage_appends by blast
      with True keep Suc.prems obtain lines where
        "GetModulePages_loop fuel crc_crypt h Module Size (PageIter + RegionSize Info') Info'
              (DiffList @ [DiffBlock]) (out @ lines) = Some (DiffList', out')"
        by (cases "EstablishPage crc_crypt (contents h) DiffList Info'")
           (auto simp add: Info'_def Let_def split: if_splits)
      then obtain new where "DiffList' = (DiffList @ [DiffBlock]) @ new"
        and "list_all (\<lambda>DiffBlock. Protect (BasicInformation DiffBlock) = PAGE_EXECUTE_READ
                        \<or> Protect (BasicInformation DiffBlock) = PAGE_READONLY) new"
        using Suc.IH by blast
      with keep I show ?thesis
        by (intro exI [of _ "DiffBlock # new"]) simp
    qed
  qed
qed

text \<open>
  C5. Whenever \<^verbatim>\<open>GetModulePages\<close> returns, the pages it has appended to the list all
  have the protection \<^verbatim>\<open>PAGE_EXECUTE_READ\<close> or \<^verbatim>\<open>PAGE_READONLY\<close>, exactly; none of them
  is read-write or no-access.
\<close>

theorem GetModulePages_protection:
  assumes "GetModulePages fuel crc_crypt h ModuleName DiffList = Some (StatusCode, DiffList', out)"
  shows "\<exists>new. DiffList' = DiffList @ new
        \<and> list_all (\<lambda>DiffBlock. Protect (BasicInformation DiffBlock) = PAGE_EXECUTE_READ
                        \<or> Protect (BasicInformation DiffBlock) = PAGE_READONLY) new
        \<and> list_all (\<lambda>DiffBlock. Protect (BasicInformation DiffBlock) \<noteq> PAGE_READWRITE
                        \<and> Protect (BasicInformation DiffBlock) \<noteq> PAGE_NOACCESS) new"
proof (cases "K32GetModuleInformation h (GetModuleHandle h ModuleName)")
  case (Inl e)
  with assms have "DiffList' = DiffList @ []"
    by (simp add: GetModulePages_def)
  then show ?thesis
    by (intro exI [of _ "[]"]) simp
next
  case (Inr ModuleInformation)
  with assms obtain PageIter Info out0 where
    "GetModulePages_loop fuel crc_crypt h (GetModuleHandle h ModuleName)
       (SizeOfImage ModuleInformation) PageIter Info DiffList out0 = Some (DiffList', out)"
    by (auto simp add: GetModulePages_def Let_def split: option.splits)
  then obtain new where new: "DiffList' = DiffList @ new"
    "list_all (\<lambda>DiffBlock. Protect (BasicInformation DiffBlock) = PAGE_EXECUTE_READ
                        \<or> Protect (BasicInformation DiffBlock) = PAGE_READONLY) new"
    using GetModulePages_loop_protect by blast
  have "Protect (BasicInformation DiffBlock) \<noteq> PAGE_READWRITE
      \<and> Protect (BasicInformation DiffBlock) \<noteq> PAGE_NOACCESS"
    if "Protect (BasicInformation DiffBlock) = PAGE_EXECUTE_READ
                        \<or> Protect (BasicInformation DiffBlock) = PAGE_READONLY"
    for DiffBlock :: "'a word MEM_DIFF"
    using that
    by (auto simp add: PAGE_EXECUTE_READ_def PAGE_READONLY_def PAGE_READWRITE_def PAGE_NOACCESS_def)
  with new(2) have "list_all (\<lambda>DiffBlock. Protect (BasicInformation DiffBlock) \<noteq> PAGE_READWRITE
                        \<and> Protect (BasicInformation DiffBlock) \<noteq> PAGE_NOACCESS) new"
    by (simp add: list_all_iff)
  with new show ?thesis
    by blast
qed

theorem GetModulePages_protection_witness:
  "GetModulePages 6 example_crc example_host '''' []
     = Some (0, [example_Header, example_Page],
             [Module_EP 0x400000, Added_Page_Base 0x400000, Page_Checksum 0x240,
              Added_Page_Base 0x400004, Page_Checksum 0x240])
   \<and> map (\<lambda>a. map_option Protect (VirtualQuery example_host a))
         [0x400000, 0x400004, 0x400008, 0x40000C]
       = [Some PAGE_READONLY, Some PAGE_EXECUTE_READ, Some PAGE_READWRITE, Some PAGE_NOACCESS]
   \<and> list_all (\<lambda>DiffBlock. Protect (BasicInformation DiffBlock) \<noteq> PAGE_READWRITE
                        \<and> Protect (BasicInformation DiffBlock) \<noteq> PAGE_NOACCESS)
         [example_Header, example_Page]"
proof -
  have run: "GetModulePages 6 example_crc example_host '''' []
     = Some (0, [example_Header, example_Page],
             [Module_EP 0x400000, Added_Page_Base 0x400000, Page_Checksum 0x240,
              Added_Page_Base 0x400004, Page_Checksum 0x240])"
    by code_simp
  have layout: "map (\<lambda>a. map_option Protect (VirtualQuery example_host a))
         [0x400000, 0x400004, 0x400008, 0x40000C]
       = [Some PAGE_READONLY, Some PAGE_EXECUTE_READ, Some PAGE_READWRITE, Some PAGE_NOACCESS]"
    by (simp add: example_host_def example_regions_def)
  from GetModulePages_protection [OF run] run layout show ?thesis
    by simp
qed


lemma GetModulePages_resolution_error:
  "K32GetModuleInformation h (GetModuleHandle h ModuleName) = Inl StatusCode \<Longrightarrow>
   GetModulePages fuel crc_crypt h ModuleName DiffList
     = Some (StatusCode, DiffList, [K32GetModuleInformation_error StatusCode])"
  by (simp add: GetModulePages_def)

lemma GetModulePages_status:
  "GetModulePages fuel crc_crypt h ModuleName DiffList = Some (StatusCode, DiffList', out) \<Longrightarrow>
   StatusCode = (case K32GetModuleInformation h (GetModuleHandle h ModuleName) of
                   Inl e \<Rightarrow> e | Inr ModuleInformation \<Rightarrow> 0)"
  by (auto simp add: GetModulePages_def Let_def split: sum.splits option.splits)

lemma GetModulePages_loop_stalls:
  fixes Module :: "'a::len word"
  assumes "VirtualQuery h 0 = None" and "(ucast Size :: 'a word) \<noteq> 0"
  shows "GetModulePages_loop fuel crc_crypt h Module Size 0
           \<lparr>BaseAddress = 0, RegionSize = 0, Protect = 0\<rparr> DiffList out = None"
proof (induction fuel)
  case 0
  show ?case by simp
next
  case (Suc fuel)
  from assms(2) have "(0 :: 'a word) < ucast Size"
    by (simp add: word_greater_zero_iff)
  with Suc assms(1) show ?case
    by (simp add: Let_def PAGE_EXECUTE_READ_def PAGE_READONLY_def)
qed

text \<open>
  C8 at a host on which \<^verbatim>\<open>VirtualQuery\<close> fails. The query succeeds for the module's first
  region and fails for every address after it. \<^verbatim>\<open>GetModulePages\<close> does not look at the
  value \<^verbatim>\<open>VirtualQuery\<close> returns: it goes on with the descriptor of the first region,
  captures that region four times, leaves the execute-read region out, writes no error
  to the console and returns the status 0.
\<close>

theorem GetModulePages_query_failure:
  "VirtualQuery example_query_fails 0x400004 = None
   \<and> GetModulePages 10 example_crc example_query_fails '''' []
       = Some (0, [example_Header, example_Header, example_Header, example_Header],
               [Module_EP 0x400000,
                Added_Page_Base 0x400000, Page_Checksum 0x240,
                Added_Page_Base 0x400000, Page_Checksum 0x240,
                Added_Page_Base 0x400000, Page_Checksum 0x240,
                Added_Page_Base 0x400000, Page_Checksum 0x240])"
  by code_simp


lemma EstablishPage_sized:
  fixes Info :: "'a::len word MEMORY_BASIC_INFORMATION"
  assumes "unat (BaseAddress Info) + unat (RegionSize Info) < 2 ^ LENGTH('a)"
      and "list_all (\<lambda>Page. length (PageData Page) = unat (RegionSize (BasicInformation Page)))
             DiffList"
  shows "list_all (\<lambda>Page. length (PageData Page) = unat (RegionSize (BasicInformation Page)))
           (fst (EstablishPage crc_crypt mem DiffList Info))"
  using assms
  by (simp add: EstablishPage_def Let_def EstablishPage_loop_region bytes_at_def)

text \<open>
  On a host whose regions lie within the address space, every snapshot of the page set
  that \<^verbatim>\<open>GetModulePages\<close> builds has a buffer as long as its region: the monitoring loop
  never gives \<^verbatim>\<open>ComparePages\<close> a size beyond the snapshot buffer.
\<close>

lemma GetModulePages_loop_sized:
  fixes h :: "'a::len word host"
  assumes host: "\<And>a r. VirtualQuery h a = Some r \<Longrightarrow>
                   unat (BaseAddress r) + unat (RegionSize r) < 2 ^ LENGTH('a)"
  shows "GetModulePages_loop fuel crc_crypt h Module Size PageIter Info DiffList out
           = Some (DiffList', out')
     \<Longrightarrow> unat (BaseAddress Info) + unat (RegionSize Info) < 2 ^ LENGTH('a)
     \<Longrightarrow> list_all (\<lambda>Page. length (PageData Page) = unat (RegionSize (BasicInformation Page)))
           DiffList
     \<Longrightarrow> list_all (\<lambda>Page. length (PageData Page) = unat (RegionSize (BasicInformation Page)))
           DiffList'"
proof (induction fuel arbitrary: PageIter Info DiffList out)
  case 0
  then show ?case by simp
next
  case (Suc fuel)
  show ?case
  proof (cases "PageIter < BaseAddress Info + ucast Size")
    case False
    with Suc.prems show ?thesis by simp
  next
    case True
    define Info' where "Info' = (case VirtualQuery h PageIter of None \<Rightarrow> Info | Some r \<Rightarrow> r)"
    have Info': "unat (BaseAddress Info') + unat (RegionSize Info') < 2 ^ LENGTH('a)"
      using Suc.prems(2) host by (simp add: Info'_def split: option.splits)
    show ?thesis
    proof (cases "BaseAddress Info' < Module + ucast Size
        \<and> (Protect Info' = PAGE_EXECUTE_READ \<or> Protect Info' = PAGE_READONLY)")
      case False
      with True Suc.prems(1)
      have "GetModulePages_loop fuel crc_crypt h Module Size (PageIter + RegionSize Info') Info'
              DiffList out = Some (DiffList', out')"
        by (auto simp add: Info'_def Let_def split: if_splits)
      from Suc.IH [OF this Info' Suc.prems(3)] show ?thesis .
    next
      case keep: True
      obtain L lines where E: "EstablishPage crc_crypt (contents h) DiffList Info' = (L, lines)"
        by (cases "EstablishPage crc_crypt (contents h) DiffList Info'")
      with EstablishPage_sized [OF Info' Suc.prems(3), of crc_crypt "contents h"]
      have L: "list_all (\<lambda>Page. length (PageData Page) = unat (RegionSize (BasicInformation Page))) L"
        by simp
      from True keep Suc.prems(1) E
      have "GetModulePages_loop fuel crc_crypt h Module Size (PageIter + RegionSize Info') Info'
              L (out @ lines) = Some (DiffList', out')"
        by (auto simp add: Info'_def Let_def split: if_splits)
      from Suc.IH [OF this Info' L] show ?thesis .
    qed
  qed
qed

lemma EvaluatePageList_init_sized:
  fixes h :: "'a::len word host"
  assumes host: "\<And>a r. VirtualQuery h a = Some r \<Longrightarrow>
                   unat (BaseAddress r) + unat (RegionSize r) < 2 ^ LENGTH('a)"
      and init: "EvaluatePageList_init fuel crc_crypt h input = Some s"
  shows "list_all (\<lambda>Page. length (PageData Page) = unat (RegionSize (BasicInformation Page)))
           (PageSet s)"
proof (cases "K32GetModuleInformation h (GetModuleHandle h (fst (getline input)))")
  case (Inl e)
  with init show ?thesis
    by (auto simp add: EvaluatePageList_init_def GetModulePages_def split_beta)
next
  case (Inr ModuleInformation)
  define Info where "Info = (case VirtualQuery h (GetModuleHandle h (fst (getline input))) of
      None \<Rightarrow> \<lparr>BaseAddress = 0, RegionSize = 0, Protect = 0\<rparr> | Some r \<Rightarrow> r)"
  have Info: "unat (BaseAddress Info) + unat (RegionSize Info) < 2 ^ LENGTH('a)"
    using host by (simp add: Info_def split: option.splits)
  from init Inr obtain out where
    "GetModulePages_loop fuel crc_crypt h (GetModuleHandle h (fst (getline input)))
       (SizeOfImage ModuleInformation) (BaseAddress Info) Info [] [Module_EP (BaseAddress Info)]
     = Some (PageSet s, out)"
    by (auto simp add: EvaluatePageList_init_def GetModulePages_def Let_def split_beta Info_def
             split: option.splits)
  from GetModulePages_loop_sized [OF host this Info] show ?thesis
    by simp
qed

text \<open>
  When the module information cannot be obtained, the error code is written to the
  console; \<^verbatim>\<open>EvaluatePageList\<close> drops the status and goes on with an empty page set.
\<close>

lemma EvaluatePageList_init_resolution_error:
  assumes "K32GetModuleInformation h (GetModuleHandle h (fst (getline input))) = Inl StatusCode"
  shows "EvaluatePageList_init fuel crc_crypt h input
           = Some \<lparr>PageSet = [], cin = snd (getline input),
                   cout = [Module_name_prompt, K32GetModuleInformation_error StatusCode,
                           Page_list_initialized]\<rparr>"
  using assms by (simp add: EvaluatePageList_init_def GetModulePages_def split_beta)

subsection \<open>Verification and the monitoring loop\<close>

text \<open>
  C9. Let the stored checksum of a snapshot be non-zero and the checksum of the live
  region be zero. Then \<^verbatim>\<open>EvaluatePage\<close> returns 0, the value it returns whenever the
  two checksums match, and the body of the monitoring loop leaves the state as it is:
  no report, no comparison, no macro, no prompt.
\<close>

theorem EvaluatePage_zero_checksum:
  fixes Page :: "'a::len word MEM_DIFF"
  assumes "Checksum Page \<noteq> 0"
      and "GetChecksum crc_crypt
             (bytes_at mem (BaseAddress (BasicInformation Page)) (RegionSize (BasicInformation Page)))
           = (0 :: 'a word)"
  shows "EvaluatePage crc_crypt mem Page = 0
       \<and> (\<forall>mem'. GetChecksum crc_crypt
             (bytes_at mem' (BaseAddress (BasicInformation Page)) (RegionSize (BasicInformation Page)))
           = Checksum Page \<longrightarrow> EvaluatePage crc_crypt mem' Page = 0)
       \<and> EvaluatePageList_body crc_crypt mem s Page = Some s"
  using assms by (simp add: EvaluatePage_def EvaluatePageList_body_def Let_def)

theorem EvaluatePage_zero_checksum_witness:
  "Checksum example_Page \<noteq> 0
   \<and> GetChecksum example_crc (bytes_at example_zeroed 0x400004 4) = (0 :: 64 word)
   \<and> bytes_at example_zeroed 0x400004 4 \<noteq> PageData example_Page
   \<and> EvaluatePage example_crc example_zeroed example_Page = 0
   \<and> EvaluatePage example_crc example_original example_Page = 0
   \<and> EvaluatePageList_body example_crc example_zeroed (example_monitor [''Patch'']) example_Page
       = Some (example_monitor [''Patch''])"
proof -
  have stored: "Checksum example_Page \<noteq> 0"
    by (simp add: example_Page_def)
  have live: "GetChecksum example_crc
      (bytes_at example_zeroed (BaseAddress (BasicInformation example_Page))
         (RegionSize (BasicInformation example_Page))) = (0 :: 64 word)"
    by code_simp
  have match: "GetChecksum example_crc
      (bytes_at example_original (BaseAddress (BasicInformation example_Page))
         (RegionSize (BasicInformation example_Page))) = Checksum example_Page"
    by code_simp
  have differs: "bytes_at example_zeroed 0x400004 4 \<noteq> PageData example_Page"
    by code_simp
  from EvaluatePage_zero_checksum [OF stored live, of "example_monitor [''Patch'']"]
    stored live match differs
  show ?thesis
    by (simp add: example_Page_def example_Info_def)
qed

lemma body_match:
  "EvaluatePage crc_crypt mem Page = 0 \<Longrightarrow> EvaluatePageList_body crc_crypt mem s Page = Some s"
  by (simp add: EvaluatePageList_body_def)

lemma body_mismatch:
  assumes sized: "length (PageData Page) = unat (RegionSize (BasicInformation Page))"
      and mismatch: "EvaluatePage crc_crypt mem Page \<noteq> 0"
  shows "\<exists>ChangedData apply_text undo_text.
           ComparePages (PageData Page) mem (BaseAddress (BasicInformation Page))
             (RegionSize (BasicInformation Page)) = Some ChangedData
         \<and> OutputMacro (GeneratePairMacro (fst (getline (cin s))) (fst ChangedData))
             = Some apply_text
         \<and> OutputMacro (GeneratePairMacro (''Undo'' @ fst (getline (cin s))) (snd ChangedData))
             = Some undo_text
         \<and> EvaluatePageList_body crc_crypt mem s Page
             = Some (s\<lparr>cin := snd (getline (cin s)),
                      cout := cout s
                        @ [Page_change (BaseAddress (BasicInformation Page))
                             (EvaluatePage crc_crypt mem Page) (Checksum Page)]
                        @ ComparePages_cout (fst ChangedData)
                        @ [Macro_name_prompt, Macro_text apply_text, Macro_text undo_text]\<rparr>)"
proof -
  from sized have "unat (RegionSize (BasicInformation Page)) \<le> length (PageData Page)"
    by simp
  from ComparePages_eq [OF this]
  obtain ChangedData where C: "ComparePages (PageData Page) mem (BaseAddress (BasicInformation Page))
      (RegionSize (BasicInformation Page)) = Some ChangedData"
    by blast
  obtain apply_text where
    A: "OutputMacro (GeneratePairMacro (fst (getline (cin s))) (fst ChangedData)) = Some apply_text"
    using OutputMacro_GeneratePairMacro by blast
  obtain undo_text where
    U: "OutputMacro (GeneratePairMacro (''Undo'' @ fst (getline (cin s))) (snd ChangedData))
          = Some undo_text"
    using OutputMacro_GeneratePairMacro by blast
  from mismatch C A U have "EvaluatePageList_body crc_crypt mem s Page
             = Some (s\<lparr>cin := snd (getline (cin s)),
                      cout := cout s
                        @ [Page_change (BaseAddress (BasicInformation Page))
                             (EvaluatePage crc_crypt mem Page) (Checksum Page)]
                        @ ComparePages_cout (fst ChangedData)
                        @ [Macro_name_prompt, Macro_text apply_text, Macro_text undo_text]\<rparr>)"
    by (simp add: EvaluatePageList_body_def Let_def split_beta)
  with C A U show ?thesis
    by blast
qed

lemma body_cout:
  "EvaluatePageList_body crc_crypt mem s Page = Some s' \<Longrightarrow> \<exists>new. cout s' = cout s @ new"
  by (auto simp add: EvaluatePageList_body_def Let_def split: if_splits option.splits prod.splits)

lemma for_cout:
  "EvaluatePageList_for crc_crypt mem s Pages = Some s' \<Longrightarrow> \<exists>new. cout s' = cout s @ new"
proof (induction Pages arbitrary: s)
  case Nil
  then show ?case by simp
next
  case (Cons Page Pages)
  then obtain s1 where s1: "EvaluatePageList_body crc_crypt mem s Page = Some s1"
    and rest: "EvaluatePageList_for crc_crypt mem s1 Pages = Some s'"
    by (auto split: option.splits)
  from body_cout [OF s1] Cons.IH [OF rest] show ?case
    by auto
qed

text \<open>
  One sweep reports every page of the set whose live checksum is not zero and differs
  from the stored one, wherever the page stands in the set.
\<close>

lemma for_reports:
  assumes "list_all (\<lambda>Page. length (PageData Page) = unat (RegionSize (BasicInformation Page)))
             Pages"
      and "Page \<in> set Pages"
      and "EvaluatePage crc_crypt mem Page \<noteq> 0"
  shows "\<exists>s' new. EvaluatePageList_for crc_crypt mem s Pages = Some s'
           \<and> cout s' = cout s @ new
           \<and> Page_change (BaseAddress (BasicInformation Page)) (EvaluatePage crc_crypt mem Page)
                (Checksum Page) \<in> set new"
  using assms
proof (induction Pages arbitrary: s)
  case Nil
  then show ?case by simp
next
  case (Cons P Pages)
  from Cons.prems(1) have sizedP: "length (PageData P) = unat (RegionSize (BasicInformation P))"
    and sized: "list_all (\<lambda>Page. length (PageData Page) = unat (RegionSize (BasicInformation Page)))
             Pages"
    by simp_all
  obtain s1 where s1: "EvaluatePageList_body crc_crypt mem s P = Some s1"
    using body_returns [OF sizedP] by blast
  obtain new1 where new1: "cout s1 = cout s @ new1"
    using body_cout [OF s1] by blast
  obtain s' where s': "EvaluatePageList_for crc_crypt mem s1 Pages = Some s'"
    using for_returns [OF sized] by blast
  obtain new2 where new2: "cout s' = cout s1 @ new2"
    using for_cout [OF s'] by blast
  let ?e = "Page_change (BaseAddress (BasicInformation Page)) (EvaluatePage crc_crypt mem Page)
                (Checksum Page)"
  have "?e \<in> set (new1 @ new2)"
  proof (cases "Page = P")
    case True
    from body_mismatch [OF sizedP, of crc_crypt mem s] Cons.prems(3) True s1 new1
    have "?e \<in> set new1"
      by auto
    then show ?thesis by simp
  next
    case False
    with Cons.prems(2) have "Page \<in> set Pages" by simp
    from Cons.IH [OF sized this Cons.prems(3), of s1] s' new2
    have "?e \<in> set new2"
      by auto
    then show ?thesis by simp
  qed
  with s1 s' new1 new2 show ?case
    by simp
qed


text \<open>
  Sweep after sweep, as long as the live checksum of a page of the set is not zero and
  differs from the stored one, every sweep reports the page again: the page set is the
  same at every sweep, and after \<open>length mems\<close> sweeps the console holds at least that
  many reports of the page.
\<close>

lemma while_reports:
  assumes "list_all (\<lambda>Page. length (PageData Page) = unat (RegionSize (BasicInformation Page)))
             (PageSet s)"
      and "Page \<in> set (PageSet s)"
      and "list_all (\<lambda>mem. EvaluatePage crc_crypt mem Page \<noteq> 0) mems"
  shows "\<exists>s' new. EvaluatePageList_while crc_crypt mems s = Some s'
           \<and> PageSet s' = PageSet s
           \<and> cout s' = cout s @ new
           \<and> length mems \<le> length (filter
                (\<lambda>e. \<exists>Sum. e = Page_change (BaseAddress (BasicInformation Page)) Sum
                                 (Checksum Page)) new)"
  using assms
proof (induction mems arbitrary: s)
  case Nil
  then show ?case by simp
next
  case (Cons mem mems)
  let ?is_report = "\<lambda>e. \<exists>Sum. e = Page_change (BaseAddress (BasicInformation Page)) Sum
                                 (Checksum Page)"
  from Cons.prems(3) have now: "EvaluatePage crc_crypt mem Page \<noteq> 0"
    and later: "list_all (\<lambda>mem. EvaluatePage crc_crypt mem Page \<noteq> 0) mems"
    by simp_all
  from for_reports [OF Cons.prems(1) Cons.prems(2) now, of s]
  obtain s1 new1 where s1: "EvaluatePageList_for crc_crypt mem s (PageSet s) = Some s1"
    and new1: "cout s1 = cout s @ new1"
    and e: "Page_change (BaseAddress (BasicInformation Page)) (EvaluatePage crc_crypt mem Page)
                (Checksum Page) \<in> set new1"
    by blast
  from e have "filter ?is_report new1 \<noteq> []"
    by (auto simp add: filter_empty_conv)
  then have one: "1 \<le> length (filter ?is_report new1)"
    by (simp add: Suc_le_eq)
  have same: "PageSet s1 = PageSet s"
    using s1 by (rule for_PageSet)
  with Cons.prems have "list_all (\<lambda>Page. length (PageData Page)
        = unat (RegionSize (BasicInformation Page))) (PageSet s1)" and "Page \<in> set (PageSet s1)"
    by simp_all
  from Cons.IH [OF this later]
  obtain s' new2 where s': "EvaluatePageList_while crc_crypt mems s1 = Some s'"
    and set': "PageSet s' = PageSet s1"
    and new2: "cout s' = cout s1 @ new2"
    and many: "length mems \<le> length (filter ?is_report new2)"
    by blast
  from one many have "length (mem # mems) \<le> length (filter ?is_report (new1 @ new2))"
    by simp
  with s1 s' set' same new1 new2 show ?case
    by (intro exI [of _ s'] exI [of _ "new1 @ new2"]) simp
qed


subsection \<open>The generated macros\<close>

lemma OutputMacro_loop_eq:
  "OutputMacro_loop Macros MacIndex out
     = out @ concat (map (\<lambda>M. fst M @ snd M) (drop MacIndex Macros))"
proof (induction Macros MacIndex out rule: OutputMacro_loop.induct)
  case (1 Macros MacIndex out)
  show ?case
  proof (cases "MacIndex < length Macros")
    case True
    then have "drop MacIndex Macros = Macros ! MacIndex # drop (Suc MacIndex) Macros"
      by (simp add: Cons_nth_drop_Suc)
    with True "1.IH" show ?thesis
      by (subst OutputMacro_loop.simps) simp
  next
    case False
    then show ?thesis
      by (subst OutputMacro_loop.simps) simp
  qed
qed

lemma OutputMacro_GeneratePairMacro_eq:
  "OutputMacro (GeneratePairMacro MacroName List)
     = Some (FunctionInit (if MacroName = '''' then ''DefaultMacroName'' else MacroName)
             @ concat (map (\<lambda>k. VarInit k (fst (List ! k)) @ WriteInit k (snd (List ! k)))
                          [0..<length List])
             @ ''}\<newline>\<newline>'')"
  by (simp add: GeneratePairMacro_eq OutputMacro_def OutputMacro_loop_eq comp_def)

text \<open>The decimal texts that occur in the concrete session.\<close>

lemma to_string_204: "to_string 204 = ''204''"
  by (simp add: to_string.simps digit_def)

lemma to_string_144: "to_string 144 = ''144''"
  by (simp add: to_string.simps digit_def)

lemma to_string_0: "to_string 0 = ''0''"
  by (simp add: to_string.simps digit_def)

lemma to_string_4194310: "to_string 4194310 = ''4194310''"
  by (simp add: to_string.simps digit_def)

lemma run_macro_values:
  assumes "list_all (\<lambda>c. fst c = v (snd c)) List"
  shows "run_macro List m = (\<lambda>a. if a \<in> snd ` set List then v a else m a)"
  using assms
proof (induction List arbitrary: m)
  case Nil
  then show ?case by simp
next
  case (Cons c List)
  from Cons.prems have "list_all (\<lambda>c. fst c = v (snd c)) List"
    by simp
  then have "run_macro List (WriteProcessMemory m (snd c) (fst c))
      = (\<lambda>a. if a \<in> snd ` set List then v a else (WriteProcessMemory m (snd c) (fst c)) a)"
    by (rule Cons.IH)
  with Cons.prems show ?case
    by (auto simp add: WriteProcessMemory_def fun_eq_iff)
qed

lemma unat_of_nat_less:
  fixes n :: "'a::len word"
  assumes "i < unat n"
  shows "unat (of_nat i :: 'a word) = i"
proof -
  from assms have "i < 2 ^ LENGTH('a)"
    using unsigned_less [of n] by (simp add: order_less_trans)
  then show ?thesis
    by (simp add: unat_of_nat)
qed

lemma offset_back:
  fixes A n :: "'a::len word"
  assumes "i < unat n"
  shows "unat (A + of_nat i - A) = i"
  using unat_of_nat_less [OF assms] by simp

text \<open>
  The decimal text of a number denotes that number, so the text of a generated
  statement determines the byte and the address it names.
\<close>

lemma digit_value_digit:
  assumes "d < 10"
  shows "digit_value (digit d) = d"
proof -
  from assms have "d \<in> {0, 1, 2, 3, 4, 5, 6, 7, 8, 9}"
    by auto
  then show ?thesis
    by (auto simp add: digit_def digit_value_def)
qed

lemma decimal_to_string: "decimal (to_string n) = n"
proof (induction n rule: to_string.induct)
  case (1 n)
  show ?case
  proof (cases "n < 10")
    case True
    then show ?thesis
      by (subst to_string.simps) (simp add: decimal_def digit_value_digit)
  next
    case False
    with "1.IH" have "decimal (to_string (n div 10)) = n div 10"
      by simp
    with False show ?thesis
      by (subst to_string.simps) (simp add: decimal_def digit_value_digit)
  qed
qed

lemma to_string_inject: "to_string m = to_string n \<Longrightarrow> m = n"
  by (metis decimal_to_string)

lemma VarInit_inject:
  assumes "VarInit Item b = VarInit Item b'"
  shows "b = b'"
proof -
  from assms have "to_string (unat b) = to_string (unat b')"
    by (simp add: VarInit_def)
  then have "unat b = unat b'"
    by (rule to_string_inject)
  then show ?thesis
    by (simp add: word_unat_eq_iff)
qed

lemma WriteInit_inject:
  assumes "WriteInit Item a = WriteInit Item a'"
  shows "a = a'"
proof -
  from assms have "to_string (unat a) = to_string (unat a')"
    by (simp add: WriteInit_def)
  then have "unat a = unat a'"
    by (rule to_string_inject)
  then show ?thesis
    by (simp add: word_unat_eq_iff)
qed

text \<open>
  Reading a generated pair of statements gives back the address and the byte of the
  list entry it was generated from, and running the text of a generated macro stores the
  bytes of the list at the addresses of the list, in order.
\<close>

lemma is_digit_digit: "d < 10 \<Longrightarrow> is_digit (digit d)"
proof -
  assume "d < 10"
  then have "d \<in> {0, 1, 2, 3, 4, 5, 6, 7, 8, 9}"
    by auto
  then show ?thesis
    by (auto simp add: digit_def is_digit_def)
qed

lemma to_string_digits: "list_all is_digit (to_string n)"
proof (induction n rule: to_string.induct)
  case (1 n)
  show ?case
  proof (cases "n < 10")
    case True
    then show ?thesis
      by (subst to_string.simps) (simp add: is_digit_digit)
  next
    case False
    with "1.IH" show ?thesis
      by (subst to_string.simps) (simp add: is_digit_digit)
  qed
qed

lemma to_string_nonempty: "to_string n \<noteq> []"
  by (subst to_string.simps) simp

lemma is_digit_name: "is_digit c \<Longrightarrow> is_name_char c"
  by (auto simp add: is_digit_def is_name_char_def)

lemma to_string_name: "list_all is_name_char (to_string n)"
  using to_string_digits [of n] by (simp add: list_all_iff is_digit_name)

lemma takeWhile_all:
  "list_all P xs \<Longrightarrow> \<not> P y \<Longrightarrow> takeWhile P (xs @ y # ys) = xs"
  by (induction xs) simp_all

lemma dropWhile_all:
  "list_all P xs \<Longrightarrow> \<not> P y \<Longrightarrow> dropWhile P (xs @ y # ys) = y # ys"
  by (induction xs) simp_all

lemma read_declaration_VarInit:
  "read_declaration (VarInit Item b) = Some (''Buffer'' @ to_string Item, unat b)"
proof -
  have name: "list_all is_name_char (''Buffer'' @ to_string Item)"
    using to_string_name [of Item] by (simp add: is_name_char_def)
  have sp: "\<not> is_name_char CHR '' ''"
    by (simp add: is_name_char_def)
  have L: "\<not> is_digit CHR ''L''"
    by (simp add: is_digit_def)
  have s1: "expect (CHR 0x09 # ''BYTE '') (VarInit Item b)
      = Some ((''Buffer'' @ to_string Item) @ CHR '' '' # ''= '' @ to_string (unat b) @ ''L;\<newline>'')"
    by (simp add: expect_def VarInit_def)
  have s2: "expect '' = '' (CHR '' '' # ''= '' @ to_string (unat b) @ ''L;\<newline>'')
      = Some (to_string (unat b) @ CHR ''L'' # '';\<newline>'')"
    by (simp add: expect_def)
  show ?thesis
    unfolding read_declaration_def s1
    by (simp only: option.case takeWhile_all [OF name sp] dropWhile_all [OF name sp] s2
          takeWhile_all [OF to_string_digits L] dropWhile_all [OF to_string_digits L]
          decimal_to_string)
       (simp add: to_string_nonempty)
qed

lemma read_write_WriteInit:
  "read_write (WriteInit Item a) = Some (unat a, ''Buffer'' @ to_string Item)"
proof -
  have name: "list_all is_name_char (''Buffer'' @ to_string Item)"
    using to_string_name [of Item] by (simp add: is_name_char_def)
  have comma: "\<not> is_name_char CHR '',''"
    by (simp add: is_name_char_def)
  have L: "\<not> is_digit CHR ''L''"
    by (simp add: is_digit_def)
  have s1: "expect (CHR 0x09 # ''WriteProcessMemory(ProcessHandle, (PVOID)'') (WriteInit Item a)
      = Some (to_string (unat a) @ CHR ''L'' # '', &'' @ (''Buffer'' @ to_string Item)
                @ CHR '','' # '' 1, NULL);\<newline>\<newline>'')"
    by (simp add: expect_def WriteInit_def)
  have s2: "expect ''L, &'' (CHR ''L'' # '', &'' @ (''Buffer'' @ to_string Item)
                @ CHR '','' # '' 1, NULL);\<newline>\<newline>'')
      = Some ((''Buffer'' @ to_string Item) @ CHR '','' # '' 1, NULL);\<newline>\<newline>'')"
    by (simp add: expect_def)
  show ?thesis
    unfolding read_write_def s1
    by (simp only: option.case takeWhile_all [OF to_string_digits L]
          dropWhile_all [OF to_string_digits L] s2
          takeWhile_all [OF name comma] dropWhile_all [OF name comma] decimal_to_string)
       (simp add: to_string_nonempty)
qed

lemma read_statement_generated:
  "read_statement (VarInit Item b, WriteInit Item a) = Some (unat a, unat b)"
  by (simp add: read_statement_def read_declaration_VarInit read_write_WriteInit)

lemma run_statements_generated:
  "run_statements (map (\<lambda>k. (VarInit k (fst (List ! k)), WriteInit k (snd (List ! k))))
                      [i..<length List]) mem
     = Some (run_macro (drop i List) mem)"
proof (induction "length List - i" arbitrary: i mem)
  case 0
  then show ?case by simp
next
  case (Suc n)
  then have less: "i < length List" and n: "n = length List - Suc i"
    by simp_all
  then have upt: "[i..<length List] = i # [Suc i..<length List]"
    and drop: "drop i List = List ! i # drop (Suc i) List"
    by (simp_all add: upt_conv_Cons Cons_nth_drop_Suc)
  show ?case
    unfolding upt drop
    by (simp add: read_statement_generated Suc.hyps(1) [OF n])
qed

lemma run_text_generated:
  "run_text (GeneratePairMacro MacroName List) mem = Some (run_macro List mem)"
  using run_statements_generated [of List 0 mem]
  by (simp add: run_text_def GeneratePairMacro_eq)

text \<open>
  C2. Let \<^verbatim>\<open>ComparePages\<close> return the lists \<open>ChangedBytes\<close> and \<open>OriginBytes\<close> for a
  snapshot buffer as long as the live region. The two lists hold the same addresses in
  the same order. For every entry \<open>k\<close> there is an offset \<open>i\<close> at which the buffers
  differ such that entry \<open>k\<close> of \<open>ChangedBytes\<close> is the live byte with the address
  \<open>AltPage + i\<close>, entry \<open>k\<close> of \<open>OriginBytes\<close> is the snapshot's byte with the same
  address, statement pair \<open>k\<close> of the macro generated from \<open>ChangedBytes\<close> declares the
  live byte and writes it to that address, and statement pair \<open>k\<close> of the macro
  generated from \<open>OriginBytes\<close> under the name prefixed with \<open>Undo\<close> declares the
  snapshot's byte and writes it to the same address: read as C text, the first pair
  stores the live byte at \<open>AltPage + i\<close> and the second pair stores the snapshot's byte
  there. Run on an address space that holds the snapshot's bytes at the region, the text
  of the first macro makes the region equal to the live region, and the text of the
  second macro run after it gives back the address space the first one started from.
\<close>

theorem apply_undo_symmetry:
  fixes AltPage PageSize :: "'a::len word"
  assumes len: "length Page = unat PageSize"
      and diff: "ComparePages Page mem AltPage PageSize = Some (ChangedBytes, OriginBytes)"
  shows "map snd ChangedBytes = map snd OriginBytes
       \<and> (\<forall>k<length ChangedBytes. \<exists>i<unat PageSize.
             Page ! i \<noteq> mem (AltPage + of_nat i)
           \<and> ChangedBytes ! k = (mem (AltPage + of_nat i), AltPage + of_nat i)
           \<and> OriginBytes ! k = (Page ! i, AltPage + of_nat i)
           \<and> GeneratePairMacro MacroName ChangedBytes ! Suc k
               = (VarInit k (mem (AltPage + of_nat i)), WriteInit k (AltPage + of_nat i))
           \<and> GeneratePairMacro (''Undo'' @ MacroName) OriginBytes ! Suc k
               = (VarInit k (Page ! i), WriteInit k (AltPage + of_nat i))
           \<and> read_statement (GeneratePairMacro MacroName ChangedBytes ! Suc k)
               = Some (unat (AltPage + of_nat i), unat (mem (AltPage + of_nat i)))
           \<and> read_statement (GeneratePairMacro (''Undo'' @ MacroName) OriginBytes ! Suc k)
               = Some (unat (AltPage + of_nat i), unat (Page ! i)))
       \<and> (bytes_at m AltPage PageSize = Page \<longrightarrow>
             bytes_at (run_macro ChangedBytes m) AltPage PageSize = bytes_at mem AltPage PageSize
           \<and> run_macro OriginBytes (run_macro ChangedBytes m) = m
           \<and> (\<exists>patched. run_text (GeneratePairMacro MacroName ChangedBytes) m = Some patched
                 \<and> bytes_at patched AltPage PageSize = bytes_at mem AltPage PageSize
                 \<and> run_text (GeneratePairMacro (''Undo'' @ MacroName) OriginBytes) patched
                     = Some m))"
proof -
  let ?n = "unat PageSize"
  let ?D = "filter (\<lambda>i. Page ! i \<noteq> mem (AltPage + of_nat i)) [0..<?n]"
  from len have "?n \<le> length Page" by simp
  from ComparePages_eq [OF this, of mem AltPage] diff
  have Ch: "ChangedBytes = map (\<lambda>i. (mem (AltPage + of_nat i), AltPage + of_nat i)) ?D"
    and Or: "OriginBytes = map (\<lambda>i. (Page ! i, AltPage + of_nat i)) ?D"
    by simp_all
  have D: "i < ?n \<and> Page ! i \<noteq> mem (AltPage + of_nat i)" if "i \<in> set ?D" for i
    using that by simp
  have addrs: "map snd ChangedBytes = map snd OriginBytes"
    by (simp add: Ch Or comp_def)
  have stmts: "\<exists>i<?n. Page ! i \<noteq> mem (AltPage + of_nat i)
           \<and> ChangedBytes ! k = (mem (AltPage + of_nat i), AltPage + of_nat i)
           \<and> OriginBytes ! k = (Page ! i, AltPage + of_nat i)
           \<and> GeneratePairMacro MacroName ChangedBytes ! Suc k
               = (VarInit k (mem (AltPage + of_nat i)), WriteInit k (AltPage + of_nat i))
           \<and> GeneratePairMacro (''Undo'' @ MacroName) OriginBytes ! Suc k
               = (VarInit k (Page ! i), WriteInit k (AltPage + of_nat i))
           \<and> read_statement (GeneratePairMacro MacroName ChangedBytes ! Suc k)
               = Some (unat (AltPage + of_nat i), unat (mem (AltPage + of_nat i)))
           \<and> read_statement (GeneratePairMacro (''Undo'' @ MacroName) OriginBytes ! Suc k)
               = Some (unat (AltPage + of_nat i), unat (Page ! i))"
    if k: "k < length ChangedBytes" for k
  proof -
    from k have kD: "k < length ?D"
      by (simp add: Ch)
    then have "?D ! k \<in> set ?D"
      by (rule nth_mem)
    then have "?D ! k < ?n \<and> Page ! (?D ! k) \<noteq> mem (AltPage + of_nat (?D ! k))"
      by (rule D)
    moreover have "ChangedBytes ! k
        = (mem (AltPage + of_nat (?D ! k)), AltPage + of_nat (?D ! k))"
      using kD by (simp add: Ch)
    moreover have "OriginBytes ! k = (Page ! (?D ! k), AltPage + of_nat (?D ! k))"
      using kD by (simp add: Or)
    moreover have "GeneratePairMacro MacroName ChangedBytes ! Suc k
        = (VarInit k (mem (AltPage + of_nat (?D ! k))), WriteInit k (AltPage + of_nat (?D ! k)))"
      using kD by (simp add: GeneratePairMacro_eq Ch)
    moreover have "GeneratePairMacro (''Undo'' @ MacroName) OriginBytes ! Suc k
        = (VarInit k (Page ! (?D ! k)), WriteInit k (AltPage + of_nat (?D ! k)))"
      using kD by (simp add: GeneratePairMacro_eq Or)
    moreover have "read_statement (GeneratePairMacro MacroName ChangedBytes ! Suc k)
        = Some (unat (AltPage + of_nat (?D ! k)), unat (mem (AltPage + of_nat (?D ! k))))"
      using kD by (simp add: GeneratePairMacro_eq Ch read_statement_generated)
    moreover have "read_statement (GeneratePairMacro (''Undo'' @ MacroName) OriginBytes ! Suc k)
        = Some (unat (AltPage + of_nat (?D ! k)), unat (Page ! (?D ! k)))"
      using kD by (simp add: GeneratePairMacro_eq Or read_statement_generated)
    ultimately show ?thesis
      by blast
  qed
  have restore: "bytes_at (run_macro ChangedBytes m) AltPage PageSize = bytes_at mem AltPage PageSize
           \<and> run_macro OriginBytes (run_macro ChangedBytes m) = m
           \<and> (\<exists>patched. run_text (GeneratePairMacro MacroName ChangedBytes) m = Some patched
                 \<and> bytes_at patched AltPage PageSize = bytes_at mem AltPage PageSize
                 \<and> run_text (GeneratePairMacro (''Undo'' @ MacroName) OriginBytes) patched
                     = Some m)"
    if m: "bytes_at m AltPage PageSize = Page"
  proof -
    let ?S = "(\<lambda>i. AltPage + of_nat i) ` set ?D"
    let ?orig = "\<lambda>a. Page ! unat (a - AltPage)"
    have orig: "m (AltPage + of_nat i) = Page ! i" if "i < ?n" for i
      using that m bytes_at_nth [of i PageSize m AltPage] by simp
    have "list_all (\<lambda>c. fst c = mem (snd c)) ChangedBytes"
      by (simp add: Ch list_all_iff)
    then have run_Ch: "run_macro ChangedBytes m = (\<lambda>a. if a \<in> ?S then mem a else m a)"
      by (simp add: run_macro_values Ch image_image)
    have "list_all (\<lambda>c. fst c = ?orig (snd c)) OriginBytes"
      using D offset_back [of _ PageSize AltPage] by (simp add: Or list_all_iff)
    then have run_Or: "run_macro OriginBytes m' = (\<lambda>a. if a \<in> ?S then ?orig a else m' a)" for m'
      by (simp add: run_macro_values Or image_image)
    have "run_macro ChangedBytes m (AltPage + of_nat i) = mem (AltPage + of_nat i)"
      if "i < ?n" for i
    proof (cases "AltPage + of_nat i \<in> ?S")
      case True
      then show ?thesis by (simp add: run_Ch)
    next
      case False
      with that have "i \<notin> set ?D" by blast
      with that have "Page ! i = mem (AltPage + of_nat i)" by simp
      with False orig [OF that] show ?thesis by (simp add: run_Ch)
    qed
    then have applied: "bytes_at (run_macro ChangedBytes m) AltPage PageSize
        = bytes_at mem AltPage PageSize"
      by (simp add: bytes_at_def)
    have "?orig a = m a" if "a \<in> ?S" for a
    proof -
      from that obtain i where i: "i \<in> set ?D" and a: "a = AltPage + of_nat i"
        by blast
      from i have "i < ?n" by simp
      with a offset_back [of i PageSize AltPage] show ?thesis
        by (simp add: orig)
    qed
    then have undone: "run_macro OriginBytes (run_macro ChangedBytes m) = m"
      by (auto simp add: run_Or run_Ch fun_eq_iff)
    have "run_text (GeneratePairMacro MacroName ChangedBytes) m
        = Some (run_macro ChangedBytes m)"
      by (rule run_text_generated)
    moreover have "run_text (GeneratePairMacro (''Undo'' @ MacroName) OriginBytes)
        (run_macro ChangedBytes m) = Some (run_macro OriginBytes (run_macro ChangedBytes m))"
      by (rule run_text_generated)
    ultimately have "\<exists>patched. run_text (GeneratePairMacro MacroName ChangedBytes) m
          = Some patched
        \<and> bytes_at patched AltPage PageSize = bytes_at mem AltPage PageSize
        \<and> run_text (GeneratePairMacro (''Undo'' @ MacroName) OriginBytes) patched = Some m"
      using applied undone by simp
    with applied undone show ?thesis
      by simp
  qed
  from addrs stmts restore show ?thesis
    by blast
qed


theorem apply_undo_symmetry_witness:
  "ComparePages (PageData example_Page) example_live example_base 4
     = Some ([(0xCC, 0x400006)], [(0x90, 0x400006)])
   \<and> GeneratePairMacro ''Patch'' [(0xCC, 0x400006 :: 64 word)]
       = [(''void Patch(HANDLE ProcessHandle)\<newline>{\<newline>'', ''}''),
          (CHR 0x09 # ''BYTE Buffer0 = 204L;\<newline>'',
           CHR 0x09 # ''WriteProcessMemory(ProcessHandle, (PVOID)4194310L, &Buffer0, 1, NULL);\<newline>\<newline>'')]
   \<and> GeneratePairMacro ''UndoPatch'' [(0x90, 0x400006 :: 64 word)]
       = [(''void UndoPatch(HANDLE ProcessHandle)\<newline>{\<newline>'', ''}''),
          (CHR 0x09 # ''BYTE Buffer0 = 144L;\<newline>'',
           CHR 0x09 # ''WriteProcessMemory(ProcessHandle, (PVOID)4194310L, &Buffer0, 1, NULL);\<newline>\<newline>'')]
   \<and> read_statement
         (CHR 0x09 # ''BYTE Buffer0 = 204L;\<newline>'',
          CHR 0x09 # ''WriteProcessMemory(ProcessHandle, (PVOID)4194310L, &Buffer0, 1, NULL);\<newline>\<newline>'')
       = Some (0x400006, 0xCC)
   \<and> read_statement
         (CHR 0x09 # ''BYTE Buffer0 = 144L;\<newline>'',
          CHR 0x09 # ''WriteProcessMemory(ProcessHandle, (PVOID)4194310L, &Buffer0, 1, NULL);\<newline>\<newline>'')
       = Some (0x400006, 0x90)
   \<and> bytes_at example_original example_base 4 = PageData example_Page
   \<and> bytes_at (run_macro [(0xCC, 0x400006)] example_original) example_base 4
       = bytes_at example_live example_base 4
   \<and> run_macro [(0x90, 0x400006)] (run_macro [(0xCC, 0x400006)] example_original)
       = example_original
   \<and> run_text
         [(''void Patch(HANDLE ProcessHandle)\<newline>{\<newline>'', ''}''),
          (CHR 0x09 # ''BYTE Buffer0 = 204L;\<newline>'',
           CHR 0x09 # ''WriteProcessMemory(ProcessHandle, (PVOID)4194310L, &Buffer0, 1, NULL);\<newline>\<newline>'')]
         example_original
       = Some example_live
   \<and> run_text
         [(''void UndoPatch(HANDLE ProcessHandle)\<newline>{\<newline>'', ''}''),
          (CHR 0x09 # ''BYTE Buffer0 = 144L;\<newline>'',
           CHR 0x09 # ''WriteProcessMemory(ProcessHandle, (PVOID)4194310L, &Buffer0, 1, NULL);\<newline>\<newline>'')]
         example_live
       = Some example_original"
proof -
  have len: "length (PageData example_Page) = unat (4 :: 64 word)"
    by (simp add: example_Page_def)
  have diff: "ComparePages (PageData example_Page) example_live example_base 4
     = Some ([(0xCC, 0x400006)], [(0x90, 0x400006)])"
    by code_simp
  have orig: "bytes_at example_original example_base 4 = PageData example_Page"
    by code_simp
  have apply_text: "GeneratePairMacro ''Patch'' [(0xCC, 0x400006 :: 64 word)]
       = [(''void Patch(HANDLE ProcessHandle)\<newline>{\<newline>'', ''}''),
          (CHR 0x09 # ''BYTE Buffer0 = 204L;\<newline>'',
           CHR 0x09 # ''WriteProcessMemory(ProcessHandle, (PVOID)4194310L, &Buffer0, 1, NULL);\<newline>\<newline>'')]"
    by (simp add: GeneratePairMacro_eq FunctionInit_def VarInit_def WriteInit_def
          to_string_0 to_string_204 to_string_4194310)
  have undo_text: "GeneratePairMacro ''UndoPatch'' [(0x90, 0x400006 :: 64 word)]
       = [(''void UndoPatch(HANDLE ProcessHandle)\<newline>{\<newline>'', ''}''),
          (CHR 0x09 # ''BYTE Buffer0 = 144L;\<newline>'',
           CHR 0x09 # ''WriteProcessMemory(ProcessHandle, (PVOID)4194310L, &Buffer0, 1, NULL);\<newline>\<newline>'')]"
    by (simp add: GeneratePairMacro_eq FunctionInit_def VarInit_def WriteInit_def
          to_string_0 to_string_144 to_string_4194310)
  have live: "run_macro [(0xCC, 0x400006)] example_original = example_live"
    by (simp add: WriteProcessMemory_def example_live_def)
  have "example_live(0x400006 := 0x90) = example_original"
    by (simp add: example_live_def example_original_def fun_eq_iff)
  then have undo_run: "run_macro [(0x90, 0x400006)] example_live = example_original"
    by (simp add: WriteProcessMemory_def)
  note symmetry = apply_undo_symmetry [OF len diff, of "''Patch''" example_original]
  from symmetry have "\<exists>i<unat (4 :: 64 word).
      PageData example_Page ! i \<noteq> example_live (example_base + of_nat i)
    \<and> [(0xCC, 0x400006)] ! 0 = (example_live (example_base + of_nat i), example_base + of_nat i)
    \<and> read_statement (GeneratePairMacro ''Patch'' [(0xCC, 0x400006 :: 64 word)] ! Suc 0)
        = Some (unat (example_base + of_nat i), unat (example_live (example_base + of_nat i)))
    \<and> read_statement (GeneratePairMacro (''Undo'' @ ''Patch'') [(0x90, 0x400006 :: 64 word)] ! Suc 0)
        = Some (unat (example_base + of_nat i), unat (PageData example_Page ! i))"
    by auto
  then obtain i where i: "example_live (example_base + of_nat i) = 0xCC"
      "example_base + of_nat i = 0x400006"
      "PageData example_Page ! i \<noteq> example_live (example_base + of_nat i)"
    and r1: "read_statement (GeneratePairMacro ''Patch'' [(0xCC, 0x400006 :: 64 word)] ! Suc 0)
        = Some (unat (example_base + of_nat i), unat (example_live (example_base + of_nat i)))"
    and r2: "read_statement (GeneratePairMacro (''Undo'' @ ''Patch'') [(0x90, 0x400006 :: 64 word)] ! Suc 0)
        = Some (unat (example_base + of_nat i), unat (PageData example_Page ! i))"
    and less: "i < unat (4 :: 64 word)"
    by auto
  from less have "i \<in> {0, 1, 2, 3}"
    by auto
  with i(1,3) have "PageData example_Page ! i = 0x90"
    by (auto simp add: example_Page_def)
  with r1 r2 i have reads: "read_statement
         (CHR 0x09 # ''BYTE Buffer0 = 204L;\<newline>'',
          CHR 0x09 # ''WriteProcessMemory(ProcessHandle, (PVOID)4194310L, &Buffer0, 1, NULL);\<newline>\<newline>'')
       = Some (0x400006, 0xCC)"
    "read_statement
         (CHR 0x09 # ''BYTE Buffer0 = 144L;\<newline>'',
          CHR 0x09 # ''WriteProcessMemory(ProcessHandle, (PVOID)4194310L, &Buffer0, 1, NULL);\<newline>\<newline>'')
       = Some (0x400006, 0x90)"
    using apply_text undo_text by simp_all
  from symmetry orig
  have runs: "bytes_at (run_macro [(0xCC, 0x400006)] example_original) example_base 4
       = bytes_at example_live example_base 4"
    "run_macro [(0x90, 0x400006)] (run_macro [(0xCC, 0x400006)] example_original)
       = example_original"
    "\<exists>patched. run_text (GeneratePairMacro ''Patch'' [(0xCC, 0x400006 :: 64 word)])
         example_original = Some patched
       \<and> run_text (GeneratePairMacro (''Undo'' @ ''Patch'') [(0x90, 0x400006 :: 64 word)])
           patched = Some example_original"
    by blast+
  have texts: "run_text (GeneratePairMacro ''Patch'' [(0xCC, 0x400006 :: 64 word)])
         example_original = Some example_live"
    "run_text (GeneratePairMacro ''UndoPatch'' [(0x90, 0x400006 :: 64 word)])
         example_live = Some example_original"
    by (simp_all only: run_text_generated live undo_run)
  from diff apply_text undo_text reads orig runs(1,2) texts show ?thesis
    by (simp only:)
qed

text \<open>
  When the name is not empty, the first macro carries the name and the second one the
  name prefixed with \<open>Undo\<close>. When the name is empty, the first macro carries the
  default name and the second one the bare prefix.
\<close>

lemma GeneratePairMacro_names:
  "MacroName \<noteq> '''' \<Longrightarrow>
     fst (hd (GeneratePairMacro MacroName ChangedBytes)) = FunctionInit MacroName
   \<and> fst (hd (GeneratePairMacro (''Undo'' @ MacroName) OriginBytes))
       = FunctionInit (''Undo'' @ MacroName)"
  "fst (hd (GeneratePairMacro '''' ChangedBytes)) = FunctionInit ''DefaultMacroName''"
  "fst (hd (GeneratePairMacro (''Undo'' @ '''') OriginBytes)) = FunctionInit ''Undo''"
  by (simp_all add: GeneratePairMacro_eq)

lemma example_EvaluatePage:
  "EvaluatePage example_crc example_live example_Page = 0x27C"
  by code_simp

lemma example_ComparePages:
  "ComparePages (PageData example_Page) example_live (BaseAddress (BasicInformation example_Page))
     (RegionSize (BasicInformation example_Page))
   = Some ([(0xCC, 0x400006)], [(0x90, 0x400006)])"
  by code_simp

text \<open>
  C4 at the empty name. The operator enters an empty line at the prompt. The first
  macro is named \<open>DefaultMacroName\<close>; the second one is named \<open>Undo\<close>, not
  \<open>UndoDefaultMacroName\<close>: the prefix is put in front of the empty name before
  \<^verbatim>\<open>GeneratePairMacro\<close> looks for an empty name.
\<close>

theorem EvaluatePageList_body_empty_name:
  "EvaluatePageList_body example_crc example_live (example_monitor ['''']) example_Page
   = Some \<lparr>PageSet = [example_Page], cin = [],
       cout = [Page_change 0x400004 0x27C 0x240, Change_Address 0x400006 0xCC, Macro_name_prompt,
         Macro_text (''void DefaultMacroName(HANDLE ProcessHandle)\<newline>{\<newline>''
           @ CHR 0x09 # ''BYTE Buffer0 = 204L;\<newline>''
           @ CHR 0x09 # ''WriteProcessMemory(ProcessHandle, (PVOID)4194310L, &Buffer0, 1, NULL);\<newline>\<newline>''
           @ ''}\<newline>\<newline>''),
         Macro_text (''void Undo(HANDLE ProcessHandle)\<newline>{\<newline>''
           @ CHR 0x09 # ''BYTE Buffer0 = 144L;\<newline>''
           @ CHR 0x09 # ''WriteProcessMemory(ProcessHandle, (PVOID)4194310L, &Buffer0, 1, NULL);\<newline>\<newline>''
           @ ''}\<newline>\<newline>'')]\<rparr>"
  by (simp add: EvaluatePageList_body_def example_EvaluatePage example_ComparePages
        example_monitor_def ComparePages_cout_def OutputMacro_GeneratePairMacro_eq
        FunctionInit_def VarInit_def WriteInit_def
        to_string_0 to_string_204 to_string_144 to_string_4194310)
     (simp add: example_Page_def example_Info_def)


subsection \<open>The monitoring loop at a checksum of zero\<close>

lemma example_zeroed_EvaluatePage:
  "EvaluatePage example_crc example_zeroed example_Page = 0"
  by code_simp

text \<open>
  C6 at a page whose live checksum becomes zero. The stored checksum is \<open>0x240\<close>. At the
  first sweep one byte of the region has been overwritten: the page is reported,
  compared, and the two macros are written. Then the region is overwritten with zeros;
  the checksum of its bytes is 0, which still differs from the stored one. The second
  and the third sweep leave the state as it was after the first: the page is not
  reported again.
\<close>

theorem sweep_misses_zero_checksum:
  "GetChecksum example_crc (bytes_at example_zeroed 0x400004 4) = (0 :: 64 word)
   \<and> Checksum example_Page = 0x240
   \<and> EvaluatePageList_while example_crc [example_live, example_zeroed, example_zeroed]
        (example_monitor [''Patch''])
       = Some \<lparr>PageSet = [example_Page], cin = [],
           cout = [Page_change 0x400004 0x27C 0x240, Change_Address 0x400006 0xCC,
             Macro_name_prompt,
             Macro_text (''void Patch(HANDLE ProcessHandle)\<newline>{\<newline>''
               @ CHR 0x09 # ''BYTE Buffer0 = 204L;\<newline>''
               @ CHR 0x09 # ''WriteProcessMemory(ProcessHandle, (PVOID)4194310L, &Buffer0, 1, NULL);\<newline>\<newline>''
               @ ''}\<newline>\<newline>''),
             Macro_text (''void UndoPatch(HANDLE ProcessHandle)\<newline>{\<newline>''
               @ CHR 0x09 # ''BYTE Buffer0 = 144L;\<newline>''
               @ CHR 0x09 # ''WriteProcessMemory(ProcessHandle, (PVOID)4194310L, &Buffer0, 1, NULL);\<newline>\<newline>''
               @ ''}\<newline>\<newline>'')]\<rparr>"
proof -
  define S1 :: "64 word monitor" where "S1 = \<lparr>PageSet = [example_Page], cin = [],
           cout = [Page_change 0x400004 0x27C 0x240, Change_Address 0x400006 0xCC,
             Macro_name_prompt,
             Macro_text (''void Patch(HANDLE ProcessHandle)\<newline>{\<newline>''
               @ CHR 0x09 # ''BYTE Buffer0 = 204L;\<newline>''
               @ CHR 0x09 # ''WriteProcessMemory(ProcessHandle, (PVOID)4194310L, &Buffer0, 1, NULL);\<newline>\<newline>''
               @ ''}\<newline>\<newline>''),
             Macro_text (''void UndoPatch(HANDLE ProcessHandle)\<newline>{\<newline>''
               @ CHR 0x09 # ''BYTE Buffer0 = 144L;\<newline>''
               @ CHR 0x09 # ''WriteProcessMemory(ProcessHandle, (PVOID)4194310L, &Buffer0, 1, NULL);\<newline>\<newline>''
               @ ''}\<newline>\<newline>'')]\<rparr>"
  have zero: "GetChecksum example_crc (bytes_at example_zeroed 0x400004 4) = (0 :: 64 word)"
    by code_simp
  have stored: "Checksum example_Page = 0x240"
    by (simp add: example_Page_def)
  have "EvaluatePageList_body example_crc example_live (example_monitor [''Patch''])
      example_Page = Some S1"
    unfolding S1_def
    by (simp add: EvaluatePageList_body_def example_EvaluatePage example_ComparePages
          example_monitor_def ComparePages_cout_def OutputMacro_GeneratePairMacro_eq
          FunctionInit_def VarInit_def WriteInit_def
          to_string_0 to_string_204 to_string_144 to_string_4194310)
       (simp add: example_Page_def example_Info_def)
  moreover have "PageSet (example_monitor [''Patch'']) = [example_Page]"
    by (simp add: example_monitor_def)
  ultimately have first: "EvaluatePageList_for example_crc example_live
      (example_monitor [''Patch'']) (PageSet (example_monitor [''Patch''])) = Some S1"
    by simp
  have "EvaluatePageList_body example_crc example_zeroed S1 example_Page = Some S1"
    using example_zeroed_EvaluatePage by (rule body_match)
  moreover have "PageSet S1 = [example_Page]"
    by (simp add: S1_def)
  ultimately have later: "EvaluatePageList_for example_crc example_zeroed S1 (PageSet S1) = Some S1"
    by simp
  have "EvaluatePageList_while example_crc [example_live, example_zeroed, example_zeroed]
        (example_monitor [''Patch'']) = Some S1"
    by (simp add: first later)
  with zero stored show ?thesis
    unfolding S1_def by simp
qed

end
